theory Spec2Isabelle
  imports Complex_Main "HOL-Library.AList"
begin

section \<open>Data model\<close>

text \<open>
  The repository's source file holds two classes: \<open>Core\<close>, the relay gateway
  (lines 13-100), and \<open>Coverbot\<close>, the verification orchestrator (lines 144-640).
  Strings of the source are \<open>string\<close>; scores are JavaScript numbers that only ever
  hold integers and are modelled as \<open>int\<close>; the balance is a JavaScript number that is
  only compared, never computed with, and is modelled as \<open>rat\<close>.
\<close>

datatype NodeStates =
    newUnverifiedNode
  | tweetVerificationFailed
  | tweetVerificationInProgress
  | tweetVerificationSucceeded
  | xdaiBalanceFailed
  | xdaiBalanceSucceeded
  | relayingNodeFailed
  | relayingNodeInProgress
  | relayingNodeSucceded
  | onlineNode
  | verifiedNode

text \<open>\<open>TweetMessage\<close> and its \<open>status\<close> object: the fields the source reads.\<close>

record TweetState =
  hasMention :: bool
  hasTag :: bool
  sameNode :: bool

record TweetMessage =
  tweet_url :: string
  tweet_id :: string
  content :: string
  status :: TweetState

text \<open>\<open>HoprNode\<close>, the ledger entry written at lines 608-613.\<close>

record HoprNode =
  node_id :: string
  tweetId :: string
  tweetUrl :: string
  node_address :: string

record IMessage =
  msg_from :: string
  msg_text :: string

text \<open>
  What the bot sends. The response tables \<open>NodeStateResponses\<close> and \<open>BotResponses\<close>
  are not part of the source file, so a payload is the table lookup the source performs,
  kept symbolic, together with the arguments it is applied to.
\<close>

datatype payload =
    NodeStateResponse NodeStates
  | NodeStateResponse_status NodeStates TweetState
  | NodeStateResponse_balance NodeStates rat
  | BotResponse_verify
  | BotResponse_status NodeStates
  | OpenedChannel string
  | RelayingPackage string

text \<open>One call of \<open>node.send\<close>: \<open>peerId\<close>, \<open>payload\<close>, \<open>intermediatePeerIds\<close>.\<close>

type_synonym sent = "string \<times> payload \<times> string list"

text \<open>The \<open>state\<close> object \<open>dumpData\<close> writes to the database (lines 307-324).\<close>

record chain_meta =
  connectedNodes :: "string list"
  hoprCoverbotAddress :: string
  bot_balance :: string
  available :: string
  refreshed :: string

record snapshot =
  snap_meta :: chain_meta
  snap_network :: "string option"
  snap_address :: string
  connected :: "HoprNode list"

text \<open>
  The configuration constants and the helpers the source imports from files that are not
  part of it (\<open>utils/env\<close>, \<open>./state\<close>, \<open>utils/utils\<close>, \<open>lib/twitter/twitter\<close>).
  They are parameters of every definition below.
\<close>

record deps =
  COVERBOT_DEBUG_MODE :: bool
  COVERBOT_DEBUG_HOPR_ADDRESS :: string
  COVERBOT_XDAI_THRESHOLD :: rat
  COVERBOT_RESTORE_SCORE_FROM :: "string option"
  ScoreRewards_verified :: int
  ScoreRewards_relayed :: int
  getHOPRNodeAddressFromContent :: "string \<Rightarrow> string"
  newTweetMessage :: "string \<Rightarrow> TweetMessage"
  tweet_hasTag :: "TweetMessage \<Rightarrow> string \<Rightarrow> bool"
  tweet_hasMention :: "TweetMessage \<Rightarrow> string \<Rightarrow> bool"
  tweet_hasSameHOPRNode :: "TweetMessage \<Rightarrow> string \<Rightarrow> bool"
  tweet_validateTweetStatus :: "TweetMessage \<Rightarrow> TweetMessage"
  status_isValid :: "TweetState \<Rightarrow> bool"
  tweet_getHOPRNode :: "bool \<Rightarrow> string \<Rightarrow> TweetMessage \<Rightarrow> string"

text \<open>
  The bot, the gateway's \<open>started\<close> flag, the two database records it persists to, and
  the part of the JavaScript runtime its behaviour depends on: the live timeouts (each
  closure of line 430 captures \<open>_hoprNodeAddress\<close>), the calls of
  \<open>_verificationCycle\<close> that are suspended at \<open>await tweet.fetch\<close> (line 381) with
  the node they selected, the number of calls of \<open>loadData\<close> that are suspended at
  the \<open>await\<close> of line 269, and the messages handed to \<open>node.send\<close>.
\<close>

record Coverbot =
  started :: bool
  address :: string
  relayTimestamp :: int
  tweets :: "string \<rightharpoonup> TweetMessage"
  verifiedHoprNodes :: "(string \<times> HoprNode) list"
  relayTimeouts :: "string \<rightharpoonup> nat"
  ethereumAddress :: "string option"
  chainId :: "nat option"
  network :: "string option"
  loadedDb :: bool
  scoreDb :: "(string \<times> int) list"
  stateDb :: "snapshot option"
  timers :: "nat \<rightharpoonup> string"
  nextTimer :: nat
  suspended :: "HoprNode list"
  restoring :: nat
  outbox :: "sent list"

text \<open>
  Every exception and rejected promise of the source is a value: the synchronous throw of
  \<open>mustBeStarted\<close> (line 24), a rejected fetch, chain query or database operation, and
  the \<open>TypeError\<close> of reading a property of \<open>undefined\<close>.
\<close>

datatype error = NotStarted | FetchError | ChainError | DbError | TypeError

type_synonym 'a io = "Coverbot \<Rightarrow> Coverbot \<times> (error + 'a)"

definition return :: "'a \<Rightarrow> 'a io" where
  "return a s = (s, Inr a)"

definition throw :: "error \<Rightarrow> 'a io" where
  "throw e s = (s, Inl e)"

text \<open>
  Sequencing inside an \<open>async\<close> function: a throw or a rejected \<open>await\<close> ends the
  function with the state as it is at that point.
\<close>

definition andThen :: "'a io \<Rightarrow> ('a \<Rightarrow> 'b io) \<Rightarrow> 'b io" where
  "andThen m k s = (case m s of (s', Inl e) \<Rightarrow> (s', Inl e) | (s', Inr a) \<Rightarrow> k a s')"

text \<open>What the environment answers at each \<open>await\<close>; \<open>None\<close> or \<open>False\<close> is a rejection.\<close>

record dd_env =
  dd_chainId :: "(nat \<times> string) option"
  dd_ethereumAddress :: "string option"
  dd_chainMeta :: "chain_meta option"
  dd_stateSet :: bool

record ld_env =
  ld_state :: bool
  ld_scores :: bool
  ld_previousScores :: "(string \<times> int) list option option"
  ld_scoreSet :: bool

record hm_env =
  hm_scoreGet :: bool
  hm_scoreSet :: bool
  hm_fetch :: "TweetMessage option"
  hm_balance :: "rat option"
  hm_ethAddress :: "string option"
  hm_dump :: dd_env

record vc_env =
  vc_load :: ld_env
  vc_dump :: dd_env
  vc_now :: int
  vc_random :: rat

record pr_env =
  pr_fetch :: "TweetMessage option"
  pr_channel :: "string option"

section \<open>The relay gateway and the timers\<close>

text \<open>
  \<open>Core.send\<close> (lines 72-91) behind \<open>_sendMessageFromBot\<close> (lines 335-344): the
  \<open>mustBeStarted\<close> decorator throws synchronously when the node is not started;
  otherwise the message is handed to the network. A later failure of the send rejects a
  promise that no caller awaits.
\<close>

definition sendMessageFromBot :: "string \<Rightarrow> payload \<Rightarrow> string list \<Rightarrow> unit io" where
  "sendMessageFromBot recipient message intermediatePeerIds s =
     (if \<not> started s then (s, Inl NotStarted)
      else (s\<lparr>outbox := outbox s @ [(recipient, message, intermediatePeerIds)]\<rparr>, Inr ()))"

definition setTimeout :: "string \<Rightarrow> Coverbot \<Rightarrow> nat \<times> Coverbot" where
  "setTimeout a s =
     (nextTimer s, s\<lparr>timers := (timers s)(nextTimer s \<mapsto> a), nextTimer := nextTimer s + 1\<rparr>)"

definition clearTimeout :: "nat option \<Rightarrow> Coverbot \<Rightarrow> Coverbot" where
  "clearTimeout t s = (case t of None \<Rightarrow> s | Some i \<Rightarrow> s\<lparr>timers := (timers s)(i := None)\<rparr>)"

section \<open>The score and state records\<close>

text \<open>\<open>_getHoprAddressScore\<close> (lines 212-219): \<open>snapshot.val() || 0\<close>.\<close>

definition score_of :: "Coverbot \<Rightarrow> string \<Rightarrow> int" where
  "score_of s hoprAddress = (case map_of (scoreDb s) hoprAddress of None \<Rightarrow> 0 | Some v \<Rightarrow> v)"

definition getHoprAddressScore :: "bool \<Rightarrow> string \<Rightarrow> int io" where
  "getHoprAddressScore ok hoprAddress s =
     (if ok then (s, Inr (score_of s hoprAddress)) else (s, Inl DbError))"

text \<open>\<open>_setHoprAddressScore\<close> (lines 221-228).\<close>

definition setHoprAddressScore :: "bool \<Rightarrow> string \<Rightarrow> int \<Rightarrow> unit io" where
  "setHoprAddressScore ok hoprAddress score s =
     (if ok then (s\<lparr>scoreDb := AList.update hoprAddress score (scoreDb s)\<rparr>, Inr ())
      else (s, Inl DbError))"

text \<open>\<open>_getEthereumAddressFromHOPRAddress\<close> (lines 206-210): two library calls.\<close>

definition getEthereumAddressFromHOPRAddress :: "string option \<Rightarrow> string io" where
  "getEthereumAddressFromHOPRAddress r s =
     (case r of None \<Rightarrow> (s, Inl ChainError) | Some a \<Rightarrow> (s, Inr a))"

text \<open>JavaScript truthiness of a string that may be \<open>null\<close> or \<open>undefined\<close>.\<close>

definition truthy :: "string option \<Rightarrow> bool" where
  "truthy x = (case x of None \<Rightarrow> False | Some v \<Rightarrow> v \<noteq> [])"

text \<open>
  \<open>loadData\<close> (lines 230-293), in two parts. The first runs to the \<open>await\<close> of
  line 269: the verified nodes are rebuilt from the \<open>connected\<close> list of the stored
  state, and when a source environment is configured and the score record does not exist,
  the scores of the source environment are requested. Its result says whether the call
  is now waiting for them (\<open>True\<close>) or has skipped the restore (\<open>False\<close>).
\<close>

definition loadData_begin :: "deps \<Rightarrow> ld_env \<Rightarrow> bool io" where
  "loadData_begin d e =
     andThen
       (\<lambda>s. if \<not> ld_state e then (s, Inl DbError)
            else (case stateDb s of
                    None \<Rightarrow> (s, Inr ())
                  | Some state \<Rightarrow>
                      (s\<lparr>verifiedHoprNodes :=
                           foldl (\<lambda>m n. AList.update (node_id n) n m) [] (connected state)\<rparr>,
                       Inr ())))
       (\<lambda>_ s. if \<not> truthy (COVERBOT_RESTORE_SCORE_FROM d) then (s, Inr False)
              else if \<not> ld_scores e then (s, Inl DbError)
              else if scoreDb s \<noteq> [] then (s, Inr False)
              else (s, Inr True))"

text \<open>
  The second part, from the answer of line 269 on: every id of the source environment
  gets \<open>ScoreRewards.verified\<close>, and the score record is overwritten as a whole
  (line 281).
\<close>

definition loadData_restore :: "deps \<Rightarrow> ld_env \<Rightarrow> unit io" where
  "loadData_restore d e s =
     (case ld_previousScores e of
        None \<Rightarrow> (s, Inl DbError)
      | Some None \<Rightarrow> (s, Inr ())
      | Some (Some previousScores) \<Rightarrow>
          (let scores = map (\<lambda>p. (fst p, ScoreRewards_verified d)) previousScores
           in if ld_scoreSet e then (s\<lparr>scoreDb := scores\<rparr>, Inr ())
              else (s, Inl DbError)))"

definition loadData_end :: "unit io" where
  "loadData_end s = (s\<lparr>loadedDb := True\<rparr>, Inr ())"

text \<open>A call of \<open>loadData\<close> that no other task interleaves with.\<close>

definition loadData :: "deps \<Rightarrow> ld_env \<Rightarrow> unit io" where
  "loadData d e =
     andThen (loadData_begin d e)
     (\<lambda>waiting. andThen (if waiting then loadData_restore d e else return ())
     (\<lambda>_. loadData_end))"

text \<open>\<open>dumpData\<close> (lines 295-333).\<close>

definition dumpData :: "dd_env \<Rightarrow> unit io" where
  "dumpData e =
     andThen
       (\<lambda>s. if \<not> truthy (ethereumAddress s) then
              (case dd_chainId e of
                 None \<Rightarrow> (s, Inl ChainError)
               | Some (cid, net) \<Rightarrow>
                   (case dd_ethereumAddress e of
                      None \<Rightarrow> (s\<lparr>chainId := Some cid, network := Some net\<rparr>, Inl ChainError)
                    | Some a \<Rightarrow>
                        (s\<lparr>chainId := Some cid, network := Some net, ethereumAddress := Some a\<rparr>,
                         Inr ())))
            else (s, Inr ()))
       (\<lambda>_ s. case dd_chainMeta e of
                None \<Rightarrow> (s, Inl ChainError)
              | Some meta \<Rightarrow>
                  (let state = \<lparr>snap_meta = meta, snap_network = network s,
                                snap_address = address s,
                                connected = map snd (verifiedHoprNodes s)\<rparr>
                   in if dd_stateSet e then (s\<lparr>stateDb := Some state\<rparr>, Inr ())
                      else (s, Inl DbError)))"

section \<open>Attestation and balance checks\<close>

text \<open>\<open>_verifyBalance\<close> (lines 468-477).\<close>

definition verifyBalance :: "deps \<Rightarrow> hm_env \<Rightarrow> IMessage \<Rightarrow> (rat \<times> NodeStates) io" where
  "verifyBalance d e message s =
     (case hm_balance e of
        None \<Rightarrow> (s, Inl ChainError)
      | Some balance \<Rightarrow>
          (s, Inr (if balance \<ge> COVERBOT_XDAI_THRESHOLD d
                   then (balance, xdaiBalanceSucceeded)
                   else (balance, xdaiBalanceFailed))))"

text \<open>
  \<open>_verifyTweet\<close> (lines 479-501). The tweet object is stored in \<open>tweets\<close> before the
  fetch (line 482); the map holds a reference, so the flags set afterwards (lines
  486-496, \<open>classifyTweet\<close>) are seen through it. The fetch of line 484 is not
  guarded: when it rejects, so does \<open>_verifyTweet\<close>.
\<close>

definition classifyTweet :: "deps \<Rightarrow> IMessage \<Rightarrow> TweetMessage \<Rightarrow> TweetMessage" where
  "classifyTweet d message fetched =
     (let t1 = (if tweet_hasTag d fetched ''basodino''
                then fetched\<lparr>status := (status fetched)\<lparr>hasTag := True\<rparr>\<rparr> else fetched);
          t2 = (if tweet_hasMention d t1 ''hoprnet''
                then t1\<lparr>status := (status t1)\<lparr>hasMention := True\<rparr>\<rparr> else t1);
          t3 = (if tweet_hasSameHOPRNode d t2 (msg_from message) \<or> COVERBOT_DEBUG_MODE d
                then t2\<lparr>status := (status t2)\<lparr>sameNode := True\<rparr>\<rparr> else t2)
      in if COVERBOT_DEBUG_MODE d then tweet_validateTweetStatus d t3 else t3)"

definition verifyTweet :: "deps \<Rightarrow> hm_env \<Rightarrow> IMessage \<Rightarrow> (TweetMessage \<times> NodeStates) io" where
  "verifyTweet d e message s =
     (let tweet = newTweetMessage d (msg_text message);
          s1 = s\<lparr>tweets := (tweets s)(msg_from message \<mapsto> tweet)\<rparr>
      in case hm_fetch e of
           None \<Rightarrow> (s1, Inl FetchError)
         | Some fetched \<Rightarrow>
             (let t = classifyTweet d message fetched
              in (s1\<lparr>tweets := (tweets s1)(msg_from message \<mapsto> t)\<rparr>,
                  Inr (if status_isValid d (status t)
                       then (t, tweetVerificationSucceeded)
                       else (t, tweetVerificationFailed)))))"

section \<open>The inbound-message state machine\<close>

text \<open>
  The pattern of line 569, \<open>/https:\/\/twitter.com.*?$/i\<close>: somewhere in the text,
  \<open>https://twitter\<close>, one character that is not a line terminator, \<open>com\<close>, and no line
  terminator up to the end of the text; letters compare without case. A \<open>char\<close> is a
  code unit below 256, so of the four line terminators of JavaScript only line feed and
  carriage return occur.
\<close>

definition lower :: "char \<Rightarrow> char" where
  "lower c =
     (let n = (of_char c :: nat) in if 65 \<le> n \<and> n \<le> 90 then char_of (n + 32) else c)"

definition is_line_terminator :: "char \<Rightarrow> bool" where
  "is_line_terminator c = (c = CHR 0x0A \<or> c = CHR 0x0D)"

fun strip_ci :: "string \<Rightarrow> string \<Rightarrow> string option" where
  "strip_ci [] s = Some s"
| "strip_ci (p # ps) [] = None"
| "strip_ci (p # ps) (c # cs) = (if lower p = lower c then strip_ci ps cs else None)"

definition match_here :: "string \<Rightarrow> bool" where
  "match_here s =
     (case strip_ci ''https://twitter'' s of
        None \<Rightarrow> False
      | Some r \<Rightarrow>
          (case r of
             [] \<Rightarrow> False
           | c # r' \<Rightarrow>
               (if is_line_terminator c then False
                else (case strip_ci ''com'' r' of
                        None \<Rightarrow> False
                      | Some r'' \<Rightarrow> list_all (\<lambda>x. \<not> is_line_terminator x) r''))))"

fun twitter_match :: "string \<Rightarrow> bool" where
  "twitter_match [] = match_here []"
| "twitter_match (c # cs) = (if match_here (c # cs) then True else twitter_match cs)"

text \<open>The round-trip branch of \<open>handleMessage\<close> (lines 506-544).\<close>

definition roundTrip :: "deps \<Rightarrow> hm_env \<Rightarrow> IMessage \<Rightarrow> unit io" where
  "roundTrip d e message =
     (let relayerAddress = getHOPRNodeAddressFromContent d (msg_text message) in
      andThen (sendMessageFromBot relayerAddress (NodeStateResponse relayingNodeSucceded) [])
      (\<lambda>_. andThen
         (\<lambda>s. let relayerTimeout = relayTimeouts s relayerAddress;
                  s1 = clearTimeout relayerTimeout s
              in (s1\<lparr>relayTimeouts := (relayTimeouts s1)(relayerAddress := None)\<rparr>, Inr ()))
      (\<lambda>_. andThen (getHoprAddressScore (hm_scoreGet e) relayerAddress)
      (\<lambda>score. let newScore = score + ScoreRewards_relayed d in
         andThen (setHoprAddressScore (hm_scoreSet e) relayerAddress newScore)
      (\<lambda>_. sendMessageFromBot relayerAddress (NodeStateResponse verifiedNode) [])))))"

text \<open>The branch of a valid attestation (lines 592-633).\<close>

definition tweetSucceeded ::
  "deps \<Rightarrow> hm_env \<Rightarrow> IMessage \<Rightarrow> TweetMessage option \<Rightarrow> unit io" where
  "tweetSucceeded d e message tweet =
     andThen (sendMessageFromBot (msg_from message)
                (NodeStateResponse tweetVerificationSucceeded) [])
     (\<lambda>_. andThen (verifyBalance d e message)
     (\<lambda>(balance, xDaiBalanceNodeState).
        andThen
          (case xDaiBalanceNodeState of
             xdaiBalanceFailed \<Rightarrow>
               sendMessageFromBot (msg_from message)
                 (NodeStateResponse_balance xDaiBalanceNodeState balance) []
           | xdaiBalanceSucceeded \<Rightarrow>
               andThen (getEthereumAddressFromHOPRAddress (hm_ethAddress e))
               (\<lambda>ethAddress. andThen
                  (\<lambda>s. case tweet of
                         None \<Rightarrow> (s, Inl TypeError)
                       | Some t \<Rightarrow>
                           (s\<lparr>verifiedHoprNodes :=
                                AList.update (msg_from message)
                                  \<lparr>node_id = msg_from message, tweetId = tweet_id t,
                                   tweetUrl = tweet_url t, node_address = ethAddress\<rparr>
                                  (verifiedHoprNodes s)\<rparr>,
                            Inr ()))
               (\<lambda>_. andThen (getHoprAddressScore (hm_scoreGet e) (msg_from message))
               (\<lambda>score. andThen
                  (if score = 0
                   then setHoprAddressScore (hm_scoreSet e) (msg_from message)
                          (ScoreRewards_verified d)
                   else return ())
               (\<lambda>_. andThen (dumpData (hm_dump e))
               (\<lambda>_. sendMessageFromBot (msg_from message)
                      (NodeStateResponse_balance xDaiBalanceNodeState balance) [])))))
           | _ \<Rightarrow> return ())
          (\<lambda>_. sendMessageFromBot (msg_from message)
                 (BotResponse_status xDaiBalanceNodeState) [])))"

text \<open>\<open>handleMessage\<close> (lines 503-639).\<close>

definition handleMessage :: "deps \<Rightarrow> hm_env \<Rightarrow> IMessage \<Rightarrow> unit io" where
  "handleMessage d e message s =
     (if msg_from message = address s then roundTrip d e message s
      else if relayTimeouts s (msg_from message) \<noteq> None then
        sendMessageFromBot (msg_from message)
          (NodeStateResponse relayingNodeInProgress) [] s
      else
        andThen
          (if twitter_match (msg_text message) then
             andThen (sendMessageFromBot (msg_from message)
                        (NodeStateResponse tweetVerificationInProgress) [])
             (\<lambda>_. andThen (verifyTweet d e message)
             (\<lambda>(tweet, nodeState). return (Some tweet, nodeState)))
           else return (None, newUnverifiedNode))
          (\<lambda>(tweet, nodeState).
             andThen
               (case nodeState of
                  newUnverifiedNode \<Rightarrow>
                    sendMessageFromBot (msg_from message) (NodeStateResponse nodeState) []
                | tweetVerificationFailed \<Rightarrow>
                    (\<lambda>s. case tweets s (msg_from message) of
                           None \<Rightarrow> (s, Inl TypeError)
                         | Some t \<Rightarrow>
                             sendMessageFromBot (msg_from message)
                               (NodeStateResponse_status nodeState (status t)) [] s)
                | tweetVerificationSucceeded \<Rightarrow> tweetSucceeded d e message tweet
                | _ \<Rightarrow> return ())
               (\<lambda>_. sendMessageFromBot (msg_from message) (BotResponse_status nodeState) []))
          s)"

section \<open>The probe cycle\<close>

text \<open>
  \<open>_verificationCycle\<close> (lines 346-466) up to its \<open>await tweet.fetch\<close> of line 381:
  the result is the node whose probe is being started, or \<open>None\<close> when the tick ends
  here. \<open>Math.random()\<close> is \<open>vc_random\<close>; an index outside the array reads
  \<open>undefined\<close>.
\<close>

definition verificationCycle_begin :: "deps \<Rightarrow> vc_env \<Rightarrow> HoprNode option io" where
  "verificationCycle_begin d e =
     andThen (\<lambda>s. if \<not> loadedDb s then loadData d (vc_load e) s else (s, Inr ()))
     (\<lambda>_. andThen (dumpData (vc_dump e))
     (\<lambda>_ s.
        if vc_now e < relayTimestamp s then (s, Inr None)
        else
          (let verifiedNodes = map snd (verifiedHoprNodes s);
               randomIndex = \<lfloor>vc_random e * of_nat (length verifiedNodes)\<rfloor>;
               hoprNode = (if 0 \<le> randomIndex \<and> nat randomIndex < length verifiedNodes
                           then Some (verifiedNodes ! nat randomIndex) else None)
           in case hoprNode of
                None \<Rightarrow> (s, Inr None)
              | Some n \<Rightarrow>
                  if relayTimeouts s (node_id n) \<noteq> None then (s, Inr None)
                  else (s, Inr (Some n)))))"

text \<open>
  The rest of the \<open>try\<close> block (lines 381-457), from the answer of \<open>tweet.fetch\<close> on.
  The three awaits of lines 413-415 are answered by \<open>pr_channel\<close>. The entry of
  \<open>relayTimeouts\<close> is written last (line 428).
\<close>

definition openPaymentChannel :: "string option \<Rightarrow> string io" where
  "openPaymentChannel r s = (case r of None \<Rightarrow> (s, Inl ChainError) | Some c \<Rightarrow> (s, Inr c))"

definition startProbe :: "deps \<Rightarrow> pr_env \<Rightarrow> HoprNode \<Rightarrow> unit io" where
  "startProbe d e hoprNode s =
     (case pr_fetch e of
        None \<Rightarrow> (s, Inl FetchError)
      | Some tweet \<Rightarrow>
          (let hoprNodeAddress =
                 tweet_getHOPRNode d (COVERBOT_DEBUG_MODE d) (COVERBOT_DEBUG_HOPR_ADDRESS d) tweet
           in if length hoprNodeAddress = 0 then (s, Inr ())
              else
                andThen (sendMessageFromBot hoprNodeAddress BotResponse_verify [])
                (\<lambda>_. andThen (sendMessageFromBot hoprNodeAddress (NodeStateResponse onlineNode) [])
                (\<lambda>_. andThen (openPaymentChannel (pr_channel e))
                (\<lambda>channelId. andThen
                   (sendMessageFromBot hoprNodeAddress (OpenedChannel channelId) [])
                (\<lambda>_. andThen
                   (\<lambda>s. sendMessageFromBot (address s) (RelayingPackage hoprNodeAddress)
                          [hoprNodeAddress] s)
                (\<lambda>_ s. let (t, s1) = setTimeout hoprNodeAddress s
                       in (s1\<lparr>relayTimeouts := (relayTimeouts s1)(hoprNodeAddress \<mapsto> t)\<rparr>,
                           Inr ())))))) s))"

text \<open>The \<open>catch\<close> of lines 458-465 logs and returns: the state stays as it was left.\<close>

definition verificationCycle_probe :: "deps \<Rightarrow> pr_env \<Rightarrow> HoprNode \<Rightarrow> Coverbot \<Rightarrow> Coverbot" where
  "verificationCycle_probe d e hoprNode s = fst (startProbe d e hoprNode s)"

text \<open>A tick that no other task interleaves with.\<close>

definition verificationCycle :: "deps \<Rightarrow> vc_env \<Rightarrow> pr_env \<Rightarrow> unit io" where
  "verificationCycle d e p =
     andThen (verificationCycle_begin d e)
     (\<lambda>hoprNode s. case hoprNode of
                     None \<Rightarrow> (s, Inr ())
                   | Some n \<Rightarrow> (verificationCycle_probe d p n s, Inr ()))"

text \<open>
  The callback of \<open>setTimeout\<close> (lines 430-455) for the live timer \<open>t\<close>: notify the
  node, then remove its entry of \<open>relayTimeouts\<close>.
\<close>

definition relayTimeout :: "nat \<Rightarrow> unit io" where
  "relayTimeout t s =
     (case timers s t of
        None \<Rightarrow> (s, Inr ())
      | Some hoprNodeAddress \<Rightarrow>
          andThen (sendMessageFromBot hoprNodeAddress (NodeStateResponse relayingNodeFailed) [])
          (\<lambda>_ s. (s\<lparr>relayTimeouts := (relayTimeouts s)(hoprNodeAddress := None)\<rparr>, Inr ()))
          (s\<lparr>timers := (timers s)(t := None)\<rparr>))"

section \<open>Runs of the bot\<close>

text \<open>
  The constructor (lines 167-204) with the databases as it finds them; its call of
  \<open>loadData\<close> is the first event of a run.
\<close>

definition newCoverbot ::
  "bool \<Rightarrow> string \<Rightarrow> int \<Rightarrow> (string \<times> int) list \<Rightarrow> snapshot option \<Rightarrow> Coverbot" where
  "newCoverbot nodeStarted addr ts scores state =
     \<lparr>started = nodeStarted, address = addr, relayTimestamp = ts, tweets = Map.empty,
      verifiedHoprNodes = [], relayTimeouts = Map.empty, ethereumAddress = None,
      chainId = None, network = None, loadedDb = False, scoreDb = scores, stateDb = state,
      timers = Map.empty, nextTimer = 0, suspended = [], restoring = 0, outbox = []\<rparr>"

text \<open>
  The tasks the event loop runs. A message handler and a timeout callback run to their
  end. A tick either runs to its end (\<open>EvTick\<close>), or runs to its
  \<open>await tweet.fetch\<close> and is resumed by a later event, so that ticks overlap as they
  do when the interval of line 199 is shorter than the fetch and the opening of the
  payment channel. In the same way a data load either runs to its end (\<open>EvLoadData\<close>)
  or is suspended at line 269 and resumed later.
\<close>

datatype event =
    EvLoadData ld_env
  | EvLoadBegin ld_env
  | EvLoadResume ld_env
  | EvMessage hm_env IMessage
  | EvTick vc_env pr_env
  | EvTickBegin vc_env
  | EvTickResume nat pr_env
  | EvTimeout nat

definition step :: "deps \<Rightarrow> event \<Rightarrow> Coverbot \<Rightarrow> Coverbot" where
  "step d ev s =
     (case ev of
        EvLoadData e \<Rightarrow> fst (loadData d e s)
      | EvLoadBegin e \<Rightarrow>
          (case loadData_begin d e s of
             (s1, Inr True) \<Rightarrow> s1\<lparr>restoring := restoring s1 + 1\<rparr>
           | (s1, Inr False) \<Rightarrow> fst (loadData_end s1)
           | (s1, Inl x) \<Rightarrow> s1)
      | EvLoadResume e \<Rightarrow>
          (if 0 < restoring s
           then fst (andThen (loadData_restore d e) (\<lambda>_. loadData_end)
                       (s\<lparr>restoring := restoring s - 1\<rparr>))
           else s)
      | EvMessage e message \<Rightarrow> fst (handleMessage d e message s)
      | EvTick e p \<Rightarrow> fst (verificationCycle d e p s)
      | EvTickBegin e \<Rightarrow>
          (case verificationCycle_begin d e s of
             (s1, Inr (Some n)) \<Rightarrow> s1\<lparr>suspended := suspended s1 @ [n]\<rparr>
           | (s1, _) \<Rightarrow> s1)
      | EvTickResume i e \<Rightarrow>
          (if i < length (suspended s)
           then verificationCycle_probe d e (suspended s ! i)
                  (s\<lparr>suspended := take i (suspended s) @ drop (Suc i) (suspended s)\<rparr>)
           else s)
      | EvTimeout t \<Rightarrow> fst (relayTimeout t s))"

definition exec :: "deps \<Rightarrow> event list \<Rightarrow> Coverbot \<Rightarrow> Coverbot" where
  "exec d evs s = foldl (\<lambda>s ev. step d ev s) s evs"

text \<open>
  Two abbreviations for statements about \<open>dumpData\<close>: every query it makes is
  answered, and the state it leaves.
\<close>

definition dd_answers :: "dd_env \<Rightarrow> bool" where
  "dd_answers e =
     (dd_chainId e \<noteq> None \<and> dd_ethereumAddress e \<noteq> None \<and> dd_chainMeta e \<noteq> None \<and>
      dd_stateSet e)"

definition dumped :: "dd_env \<Rightarrow> Coverbot \<Rightarrow> Coverbot" where
  "dumped e s = fst (dumpData e s)"

text \<open>
  Scores compared state by state, an operation that lowers no score, and the one kind of
  event that resumes a suspended restore.
\<close>

definition score_le :: "Coverbot \<Rightarrow> Coverbot \<Rightarrow> bool" where
  "score_le s s' = (\<forall>p. score_of s p \<le> score_of s' p)"

definition keeps_scores :: "'a io \<Rightarrow> bool" where
  "keeps_scores m = (\<forall>s. score_le s (fst (m s)))"

fun restore_resumed :: "event \<Rightarrow> bool" where
  "restore_resumed (EvLoadResume e) = True"
| "restore_resumed ev = False"

section \<open>A concrete configuration\<close>

text \<open>
  One instance of the parameters, used to run the definitions: an attestation names the
  node in its content, a relayed package carries the address of the relayer after its
  21 characters of prefix, and the ledger holds one verified node.
\<close>

definition sample_deps :: deps where
  "sample_deps =
     \<lparr>COVERBOT_DEBUG_MODE = False, COVERBOT_DEBUG_HOPR_ADDRESS = [],
      COVERBOT_XDAI_THRESHOLD = 1, COVERBOT_RESTORE_SCORE_FROM = None,
      ScoreRewards_verified = 100, ScoreRewards_relayed = 10,
      getHOPRNodeAddressFromContent = drop 21,
      newTweetMessage = (\<lambda>u. \<lparr>tweet_url = u, tweet_id = [], content = [],
         status = \<lparr>hasMention = False, hasTag = False, sameNode = False\<rparr>\<rparr>),
      tweet_hasTag = (\<lambda>t tag. True), tweet_hasMention = (\<lambda>t name. True),
      tweet_hasSameHOPRNode = (\<lambda>t a. content t = a),
      tweet_validateTweetStatus =
        (\<lambda>t. t\<lparr>status := \<lparr>hasMention = True, hasTag = True, sameNode = True\<rparr>\<rparr>),
      status_isValid = (\<lambda>st. hasTag st \<and> hasMention st \<and> sameNode st),
      tweet_getHOPRNode = (\<lambda>mock debugAddress t. if mock then debugAddress else content t)\<rparr>"

definition sample_node :: HoprNode where
  "sample_node = \<lparr>node_id = ''16Uiu2HAmPeer'', tweetId = ''1'',
                   tweetUrl = ''https://twitter.com/peer/status/1'', node_address = ''0xabc''\<rparr>"

definition sample_bot :: Coverbot where
  "sample_bot =
     (newCoverbot True ''16Uiu2HAmBot'' 0 [] None)
       \<lparr>verifiedHoprNodes := [(''16Uiu2HAmPeer'', sample_node)], loadedDb := True\<rparr>"

definition sample_dd :: dd_env where
  "sample_dd = \<lparr>dd_chainId = Some (100, ''xdai''), dd_ethereumAddress = Some ''0xb07'',
                 dd_chainMeta = Some \<lparr>connectedNodes = [], hoprCoverbotAddress = ''0xb07'',
                   bot_balance = ''1'', available = ''1'', refreshed = ''2020''\<rparr>,
                 dd_stateSet = True\<rparr>"

definition sample_tweet :: TweetMessage where
  "sample_tweet = \<lparr>tweet_url = ''https://twitter.com/peer/status/1'', tweet_id = ''1'',
                    content = ''16Uiu2HAmPeer'',
                    status = \<lparr>hasMention = False, hasTag = False, sameNode = False\<rparr>\<rparr>"

definition sample_hm :: hm_env where
  "sample_hm = \<lparr>hm_scoreGet = True, hm_scoreSet = True, hm_fetch = Some sample_tweet,
                 hm_balance = Some 5, hm_ethAddress = Some ''0xabc'', hm_dump = sample_dd\<rparr>"

definition relayed_message :: IMessage where
  "relayed_message = \<lparr>msg_from = ''16Uiu2HAmBot'',
                       msg_text = '' Relaying package to 16Uiu2HAmPeer''\<rparr>"

definition probing_bot :: Coverbot where
  "probing_bot =
     sample_bot\<lparr>relayTimeouts := [''16Uiu2HAmPeer'' \<mapsto> 0],
                timers := [0 \<mapsto> ''16Uiu2HAmPeer''], nextTimer := 1\<rparr>"

definition attestation_message :: IMessage where
  "attestation_message = \<lparr>msg_from = ''16Uiu2HAmPeer'',
                           msg_text = ''https://twitter.com/peer/status/1''\<rparr>"

definition fresh_bot :: Coverbot where
  "fresh_bot = (newCoverbot True ''16Uiu2HAmBot'' 0 [] None)\<lparr>loadedDb := True\<rparr>"

definition sample_ld :: ld_env where
  "sample_ld = \<lparr>ld_state = True, ld_scores = True, ld_previousScores = Some None,
                 ld_scoreSet = True\<rparr>"

definition sample_vc :: vc_env where
  "sample_vc = \<lparr>vc_load = sample_ld, vc_dump = sample_dd, vc_now = 1000, vc_random = 0\<rparr>"

definition sample_pr :: pr_env where
  "sample_pr = \<lparr>pr_fetch = Some sample_tweet, pr_channel = Some ''0xc4a''\<rparr>"

definition stored_state :: snapshot where
  "stored_state =
     \<lparr>snap_meta = \<lparr>connectedNodes = [], hoprCoverbotAddress = ''0xb07'', bot_balance = ''1'',
                    available = ''1'', refreshed = ''2020''\<rparr>,
      snap_network = Some ''xdai'', snap_address = ''16Uiu2HAmBot'',
      connected = [sample_node]\<rparr>"

definition started_bot :: Coverbot where
  "started_bot = newCoverbot True ''16Uiu2HAmBot'' 0 [] (Some stored_state)"

definition overlapping_ticks :: "event list" where
  "overlapping_ticks =
     [EvLoadData sample_ld, EvTickBegin sample_vc, EvTickBegin sample_vc,
      EvTickResume 0 sample_pr, EvTickResume 0 sample_pr]"

text \<open>
  A bot whose score record is empty and that is configured to restore scores from an
  earlier environment holding one other participant; a message without an attestation;
  and an attestation sent from an address the tweet does not name.
\<close>

definition restoring_deps :: deps where
  "restoring_deps = sample_deps\<lparr>COVERBOT_RESTORE_SCORE_FROM := Some ''previous''\<rparr>"

definition restore_ld :: ld_env where
  "restore_ld = sample_ld\<lparr>ld_previousScores := Some (Some [(''16Uiu2HAmOther'', 250)])\<rparr>"

definition new_bot :: Coverbot where
  "new_bot = newCoverbot True ''16Uiu2HAmBot'' 0 [] None"

definition greeting :: IMessage where
  "greeting = \<lparr>msg_from = ''16Uiu2HAmPeer'', msg_text = ''hello''\<rparr>"

definition stranger_message :: IMessage where
  "stranger_message = \<lparr>msg_from = ''16Uiu2HAmOther'',
                        msg_text = ''https://twitter.com/peer/status/1''\<rparr>"

section \<open>Basic facts\<close>

lemma andThen_Inr: "m s = (s1, Inr a) \<Longrightarrow> andThen m k s = k a s1"
  by (simp add: andThen_def)

lemma andThen_Inl: "m s = (s1, Inl x) \<Longrightarrow> andThen m k s = (s1, Inl x)"
  by (simp add: andThen_def)

lemma send_started:
  "started s \<Longrightarrow> sendMessageFromBot r p h s = (s\<lparr>outbox := outbox s @ [(r, p, h)]\<rparr>, Inr ())"
  by (simp add: sendMessageFromBot_def)

lemma score_of_update:
  "score_of (s\<lparr>scoreDb := AList.update a v (scoreDb s)\<rparr>) b = (if b = a then v else score_of s b)"
  by (simp add: score_of_def update_conv')

lemma dumpData_ok: "dd_answers e \<Longrightarrow> dumpData e s = (dumped e s, Inr ())"
  by (auto simp: dd_answers_def dumped_def dumpData_def andThen_def Let_def)

lemma dumped_frame [simp]:
  "started (dumped e s) = started s"
  "address (dumped e s) = address s"
  "relayTimestamp (dumped e s) = relayTimestamp s"
  "tweets (dumped e s) = tweets s"
  "verifiedHoprNodes (dumped e s) = verifiedHoprNodes s"
  "relayTimeouts (dumped e s) = relayTimeouts s"
  "loadedDb (dumped e s) = loadedDb s"
  "scoreDb (dumped e s) = scoreDb s"
  "timers (dumped e s) = timers s"
  "nextTimer (dumped e s) = nextTimer s"
  "suspended (dumped e s) = suspended s"
  "restoring (dumped e s) = restoring s"
  "outbox (dumped e s) = outbox s"
  by (simp_all add: dumped_def dumpData_def andThen_def Let_def split: option.split prod.split)

lemma exec_Nil [simp]: "exec d [] s = s"
  by (simp add: exec_def)

lemma exec_Cons [simp]: "exec d (ev # evs) s = exec d evs (step d ev s)"
  by (simp add: exec_def)

lemma exec_append: "exec d (evs @ evs') s = exec d evs' (exec d evs s)"
  by (simp add: exec_def)

lemma sample_deps_facts:
  "COVERBOT_XDAI_THRESHOLD sample_deps = 1" "ScoreRewards_verified sample_deps = 100"
  "status_isValid sample_deps \<lparr>hasMention = True, hasTag = True, sameNode = True\<rparr>"
  "\<not> COVERBOT_DEBUG_MODE sample_deps"
  by (simp_all add: sample_deps_def)

lemma sample_relayed_facts:
  "getHOPRNodeAddressFromContent sample_deps (msg_text relayed_message) = ''16Uiu2HAmPeer''"
  "ScoreRewards_relayed sample_deps = 10"
  "msg_from relayed_message = ''16Uiu2HAmBot''"
  "hm_scoreGet sample_hm" "hm_scoreSet sample_hm"
  by (simp_all add: sample_deps_def relayed_message_def sample_hm_def)

lemma sample_hm_facts:
  "hm_fetch sample_hm = Some sample_tweet" "hm_balance sample_hm = Some 5"
  "hm_ethAddress sample_hm = Some ''0xabc''" "hm_dump sample_hm = sample_dd"
  "dd_answers sample_dd"
  by (simp_all add: sample_hm_def sample_dd_def dd_answers_def)

lemma sample_vc_facts:
  "dd_answers (vc_dump sample_vc)" "vc_now sample_vc = 1000" "vc_random sample_vc = 0"
  by (simp_all add: sample_vc_def sample_hm_facts)

lemma sample_pr_facts:
  "pr_fetch sample_pr = Some sample_tweet" "pr_channel sample_pr = Some ''0xc4a''"
  "tweet_getHOPRNode sample_deps (COVERBOT_DEBUG_MODE sample_deps)
     (COVERBOT_DEBUG_HOPR_ADDRESS sample_deps) sample_tweet = ''16Uiu2HAmPeer''"
  "node_id sample_node = ''16Uiu2HAmPeer''"
  by (simp_all add: sample_pr_def sample_deps_def sample_tweet_def sample_node_def)

lemma sample_bot_facts:
  "started sample_bot" "address sample_bot = ''16Uiu2HAmBot''" "outbox sample_bot = []"
  "scoreDb sample_bot = []" "relayTimeouts sample_bot = Map.empty" "timers sample_bot = Map.empty"
  "verifiedHoprNodes sample_bot = [(''16Uiu2HAmPeer'', sample_node)]" "loadedDb sample_bot"
  "relayTimestamp sample_bot = 0" "suspended sample_bot = []" "nextTimer sample_bot = 0"
  "tweets sample_bot = Map.empty" "ethereumAddress sample_bot = None"
  by (simp_all add: sample_bot_def newCoverbot_def)

lemma probing_bot_facts:
  "started probing_bot" "address probing_bot = ''16Uiu2HAmBot''" "outbox probing_bot = []"
  "scoreDb probing_bot = []" "relayTimeouts probing_bot = [''16Uiu2HAmPeer'' \<mapsto> 0]"
  "timers probing_bot = [0 \<mapsto> ''16Uiu2HAmPeer'']"
  "verifiedHoprNodes probing_bot = [(''16Uiu2HAmPeer'', sample_node)]"
  "loadedDb probing_bot" "relayTimestamp probing_bot = 0"
  by (simp_all add: probing_bot_def sample_bot_facts)

lemma fresh_bot_facts:
  "started fresh_bot" "address fresh_bot = ''16Uiu2HAmBot''" "outbox fresh_bot = []"
  "scoreDb fresh_bot = []" "relayTimeouts fresh_bot = Map.empty" "timers fresh_bot = Map.empty"
  "verifiedHoprNodes fresh_bot = []" "tweets fresh_bot = Map.empty"
  by (simp_all add: fresh_bot_def newCoverbot_def)

lemma attestation_message_facts:
  "msg_from attestation_message = ''16Uiu2HAmPeer''"
  "msg_text attestation_message = ''https://twitter.com/peer/status/1''"
  "twitter_match (msg_text attestation_message)"
  by (simp_all add: attestation_message_def match_here_def lower_def is_line_terminator_def)

lemma sample_classify:
  "classifyTweet sample_deps attestation_message sample_tweet =
     sample_tweet\<lparr>status := \<lparr>hasMention = True, hasTag = True, sameNode = True\<rparr>\<rparr>"
  by (simp add: classifyTweet_def sample_deps_def sample_tweet_def attestation_message_def)

lemma sample_classify_fields:
  "tweet_id (classifyTweet sample_deps attestation_message sample_tweet) = ''1''"
  "tweet_url (classifyTweet sample_deps attestation_message sample_tweet) =
     ''https://twitter.com/peer/status/1''"
  by (simp_all add: sample_classify) (simp_all add: sample_tweet_def)

section \<open>Round-trip confirmations\<close>

lemma roundTrip_run:
  assumes "started s" "hm_scoreGet e" "hm_scoreSet e"
  shows "roundTrip d e message s =
     (s\<lparr>outbox := outbox s @
            [(getHOPRNodeAddressFromContent d (msg_text message), NodeStateResponse relayingNodeSucceded, []),
             (getHOPRNodeAddressFromContent d (msg_text message), NodeStateResponse verifiedNode, [])],
        timers := (case relayTimeouts s (getHOPRNodeAddressFromContent d (msg_text message)) of
                     None \<Rightarrow> timers s | Some t \<Rightarrow> (timers s)(t := None)),
        relayTimeouts := (relayTimeouts s)(getHOPRNodeAddressFromContent d (msg_text message) := None),
        scoreDb := AList.update (getHOPRNodeAddressFromContent d (msg_text message))
                     (score_of s (getHOPRNodeAddressFromContent d (msg_text message)) + ScoreRewards_relayed d)
                     (scoreDb s)\<rparr>, Inr ())"
proof (cases "relayTimeouts s (getHOPRNodeAddressFromContent d (msg_text message))")
  case None
  then show ?thesis using assms
    by (simp add: roundTrip_def andThen_def sendMessageFromBot_def clearTimeout_def
      getHoprAddressScore_def setHoprAddressScore_def score_of_def Let_def)
next
  case (Some t)
  then show ?thesis using assms
    by (simp add: roundTrip_def andThen_def sendMessageFromBot_def clearTimeout_def
      getHoprAddressScore_def setHoprAddressScore_def score_of_def Let_def)
qed

lemma handleMessage_own:
  "msg_from message = address s \<Longrightarrow> handleMessage d e message s = roundTrip d e message s"
  by (simp add: handleMessage_def)

text \<open>
  Claim C6. A message whose sender is the bot's own identity takes the round-trip branch:
  with the node started and the score record answering, \<open>handleMessage\<close> resolves,
  writes the score of the address taken from the text exactly once, to the score read
  plus \<open>ScoreRewards.relayed\<close>, clears the timer of that address and removes its entry
  of \<open>relayTimeouts\<close>, sends the two notifications of lines 521 and 540 to it, and
  touches neither the tweets, the verified nodes nor the stored state (the attestation
  and balance branches are not entered).
\<close>

theorem handleMessage_round_trip:
  assumes "msg_from message = address s" and "started s"
    and "hm_scoreGet e" and "hm_scoreSet e"
  shows "let target = getHOPRNodeAddressFromContent d (msg_text message);
             s' = fst (handleMessage d e message s)
         in snd (handleMessage d e message s) = Inr () \<and>
            scoreDb s' = AList.update target (score_of s target + ScoreRewards_relayed d) (scoreDb s) \<and>
            score_of s' target = score_of s target + ScoreRewards_relayed d \<and>
            relayTimeouts s' = (relayTimeouts s)(target := None) \<and>
            timers s' = (case relayTimeouts s target of
                           None \<Rightarrow> timers s | Some t \<Rightarrow> (timers s)(t := None)) \<and>
            outbox s' = outbox s @ [(target, NodeStateResponse relayingNodeSucceded, []),
                                    (target, NodeStateResponse verifiedNode, [])] \<and>
            tweets s' = tweets s \<and> verifiedHoprNodes s' = verifiedHoprNodes s \<and>
            stateDb s' = stateDb s"
proof -
  have "handleMessage d e message s = roundTrip d e message s"
    using assms(1) by (simp add: handleMessage_def)
  then show ?thesis
    using roundTrip_run [OF assms(2-4), of d message]
    by (simp add: Let_def score_of_def update_conv')
qed

theorem handleMessage_round_trip_witness:
  "snd (handleMessage sample_deps sample_hm relayed_message sample_bot) = Inr () \<and>
   score_of (fst (handleMessage sample_deps sample_hm relayed_message sample_bot)) ''16Uiu2HAmPeer'' = 10 \<and>
   outbox (fst (handleMessage sample_deps sample_hm relayed_message sample_bot)) =
     [(''16Uiu2HAmPeer'', NodeStateResponse relayingNodeSucceded, []),
      (''16Uiu2HAmPeer'', NodeStateResponse verifiedNode, [])]"
proof -
  have a: "msg_from relayed_message = address sample_bot"
    by (simp add: relayed_message_def sample_bot_def newCoverbot_def)
  have b: "started sample_bot" by (simp add: sample_bot_def newCoverbot_def)
  have c: "hm_scoreGet sample_hm" "hm_scoreSet sample_hm" by (simp_all add: sample_hm_def)
  have t: "getHOPRNodeAddressFromContent sample_deps (msg_text relayed_message) = ''16Uiu2HAmPeer''"
    by (simp add: sample_deps_def relayed_message_def)
  have r: "ScoreRewards_relayed sample_deps = 10" by (simp add: sample_deps_def)
  have z: "score_of sample_bot ''16Uiu2HAmPeer'' = 0" "outbox sample_bot = []"
    by (simp_all add: score_of_def sample_bot_def newCoverbot_def)
  show ?thesis
    using handleMessage_round_trip [OF a b c, of sample_deps]
    by (simp add: Let_def t r z)
qed

text \<open>
  Claim C10. The reward of the round-trip branch does not depend on a pending probe: when
  \<open>relayTimeouts\<close> has no entry for the address taken from the text, clearing the
  timer and deleting the entry change nothing, and the score of that address still grows
  by \<open>ScoreRewards.relayed\<close> and both notifications are sent.
\<close>

theorem reward_without_pending_probe:
  assumes "msg_from message = address s" and "started s"
    and "hm_scoreGet e" and "hm_scoreSet e"
    and "relayTimeouts s (getHOPRNodeAddressFromContent d (msg_text message)) = None"
  shows "let target = getHOPRNodeAddressFromContent d (msg_text message);
             s' = fst (handleMessage d e message s)
         in snd (handleMessage d e message s) = Inr () \<and>
            score_of s' target = score_of s target + ScoreRewards_relayed d \<and>
            relayTimeouts s' = relayTimeouts s \<and> timers s' = timers s \<and>
            outbox s' = outbox s @ [(target, NodeStateResponse relayingNodeSucceded, []),
                                    (target, NodeStateResponse verifiedNode, [])]"
  using assms(5) roundTrip_run [OF assms(2-4), of d message] handleMessage_own [OF assms(1), of d e]
  by (simp add: Let_def score_of_def update_conv' fun_upd_idem)

theorem reward_without_pending_probe_witness:
  "relayTimeouts sample_bot ''16Uiu2HAmPeer'' = None \<and>
   snd (handleMessage sample_deps sample_hm relayed_message sample_bot) = Inr () \<and>
   score_of sample_bot ''16Uiu2HAmPeer'' = 0 \<and>
   score_of (fst (handleMessage sample_deps sample_hm relayed_message sample_bot)) ''16Uiu2HAmPeer'' = 10"
proof -
  have a: "msg_from relayed_message = address sample_bot"
    by (simp add: sample_relayed_facts sample_bot_facts)
  have n: "relayTimeouts sample_bot
             (getHOPRNodeAddressFromContent sample_deps (msg_text relayed_message)) = None"
    by (simp add: sample_bot_facts)
  have z: "score_of sample_bot ''16Uiu2HAmPeer'' = 0"
    by (simp add: score_of_def sample_bot_facts)
  show ?thesis
    using reward_without_pending_probe
      [OF a sample_bot_facts(1) sample_relayed_facts(4,5) n]
    by (simp add: Let_def sample_relayed_facts sample_bot_facts z)
qed

text \<open>
  Claim C5 as stated fails: a probe for the peer is pending, the confirmation that names
  the peer is handled twice, and the second handling, which finds no timer left to clear,
  raises the score from 10 to 20 and sends both notifications again.
\<close>

theorem second_confirmation_counterexample:
  "relayTimeouts probing_bot ''16Uiu2HAmPeer'' = Some 0 \<and>
   relayTimeouts (exec sample_deps [EvMessage sample_hm relayed_message] probing_bot)
     ''16Uiu2HAmPeer'' = None \<and>
   score_of (exec sample_deps [EvMessage sample_hm relayed_message] probing_bot)
     ''16Uiu2HAmPeer'' = 10 \<and>
   score_of (exec sample_deps [EvMessage sample_hm relayed_message,
                               EvMessage sample_hm relayed_message] probing_bot)
     ''16Uiu2HAmPeer'' = 20 \<and>
   outbox (exec sample_deps [EvMessage sample_hm relayed_message,
                             EvMessage sample_hm relayed_message] probing_bot) =
     [(''16Uiu2HAmPeer'', NodeStateResponse relayingNodeSucceded, []),
      (''16Uiu2HAmPeer'', NodeStateResponse verifiedNode, []),
      (''16Uiu2HAmPeer'', NodeStateResponse relayingNodeSucceded, []),
      (''16Uiu2HAmPeer'', NodeStateResponse verifiedNode, [])]"
  by (simp add: exec_def step_def handleMessage_own roundTrip_run probing_bot_facts
      sample_relayed_facts score_of_def update_conv')

text \<open>
  Claim C5, amended. Handling a second confirmation for the same target leaves
  \<open>relayTimeouts\<close> and the timers as the first one left them (cancelling again is a
  no-op), and it applies the reward once more and sends the success and the score
  notification once more.
\<close>

theorem second_confirmation:
  assumes "msg_from message = address s" and "started s"
    and "hm_scoreGet e1" and "hm_scoreSet e1" and "hm_scoreGet e2" and "hm_scoreSet e2"
  shows "let target = getHOPRNodeAddressFromContent d (msg_text message);
             s1 = fst (handleMessage d e1 message s);
             s2 = fst (handleMessage d e2 message s1)
         in snd (handleMessage d e2 message s1) = Inr () \<and>
            relayTimeouts s2 = relayTimeouts s1 \<and> timers s2 = timers s1 \<and>
            score_of s2 target = score_of s1 target + ScoreRewards_relayed d \<and>
            outbox s2 = outbox s1 @ [(target, NodeStateResponse relayingNodeSucceded, []),
                                     (target, NodeStateResponse verifiedNode, [])]"
proof -
  define s1 where "s1 = fst (handleMessage d e1 message s)"
  note rt = roundTrip_run [OF assms(2-4), of d message]
  have r1: "handleMessage d e1 message s = roundTrip d e1 message s"
    using assms(1) by (rule handleMessage_own)
  have st: "started s1" by (simp add: s1_def r1 rt assms(2))
  have ad: "address s1 = address s" by (simp add: s1_def r1 rt)
  have no: "relayTimeouts s1 (getHOPRNodeAddressFromContent d (msg_text message)) = None"
    by (simp add: s1_def r1 rt)
  have own: "msg_from message = address s1" using assms(1) ad by simp
  show ?thesis
    using no roundTrip_run [OF st assms(5,6), of d message] handleMessage_own [OF own, of d e2]
    unfolding Let_def s1_def [symmetric]
    by (simp add: score_of_def update_conv' fun_upd_idem)
qed

theorem second_confirmation_witness:
  "score_of (fst (handleMessage sample_deps sample_hm relayed_message probing_bot))
     ''16Uiu2HAmPeer'' = 10 \<and>
   score_of (fst (handleMessage sample_deps sample_hm relayed_message
                    (fst (handleMessage sample_deps sample_hm relayed_message probing_bot))))
     ''16Uiu2HAmPeer'' = 20"
proof -
  have a: "msg_from relayed_message = address probing_bot"
    by (simp add: sample_relayed_facts probing_bot_facts)
  have f: "score_of (fst (handleMessage sample_deps sample_hm relayed_message probing_bot))
     ''16Uiu2HAmPeer'' = 10"
    by (simp add: handleMessage_own roundTrip_run probing_bot_facts
      sample_relayed_facts score_of_def update_conv')
  show ?thesis
    using second_confirmation
      [OF a probing_bot_facts(1) sample_relayed_facts(4,5) sample_relayed_facts(4,5), of sample_deps]
    by (simp add: Let_def sample_relayed_facts f)
qed

section \<open>Attestation messages\<close>

lemma handleMessage_attestation:
  assumes "msg_from message \<noteq> address s"
    and "relayTimeouts s (msg_from message) = None"
    and "twitter_match (msg_text message)"
    and "started s"
  shows "handleMessage d e message s =
           andThen (verifyTweet d e message)
             (\<lambda>(tweet, nodeState).
                andThen
                  (case nodeState of
                     newUnverifiedNode \<Rightarrow>
                       sendMessageFromBot (msg_from message) (NodeStateResponse nodeState) []
                   | tweetVerificationFailed \<Rightarrow>
                       (\<lambda>s. case tweets s (msg_from message) of
                              None \<Rightarrow> (s, Inl TypeError)
                            | Some t \<Rightarrow>
                                sendMessageFromBot (msg_from message)
                                  (NodeStateResponse_status nodeState (status t)) [] s)
                   | tweetVerificationSucceeded \<Rightarrow> tweetSucceeded d e message (Some tweet)
                   | _ \<Rightarrow> return ())
                  (\<lambda>_. sendMessageFromBot (msg_from message) (BotResponse_status nodeState) []))
             (s\<lparr>outbox := outbox s @
                  [(msg_from message, NodeStateResponse tweetVerificationInProgress, [])]\<rparr>)"
  using assms
  by (simp add: handleMessage_def andThen_def sendMessageFromBot_def return_def
      split: prod.split sum.split)

lemma verifyTweet_valid:
  assumes "hm_fetch e = Some fetched"
    and "status_isValid d (status (classifyTweet d message fetched))"
  shows "verifyTweet d e message s =
           (s\<lparr>tweets := (tweets s)(msg_from message \<mapsto> classifyTweet d message fetched)\<rparr>,
            Inr (classifyTweet d message fetched, tweetVerificationSucceeded))"
  using assms by (simp add: verifyTweet_def Let_def)

lemma tweetSucceeded_low:
  assumes "started s" and "hm_balance e = Some balance"
    and "\<not> balance \<ge> COVERBOT_XDAI_THRESHOLD d"
  shows "tweetSucceeded d e message tweet s =
           (s\<lparr>outbox := outbox s @
               [(msg_from message, NodeStateResponse tweetVerificationSucceeded, []),
                (msg_from message, NodeStateResponse_balance xdaiBalanceFailed balance, []),
                (msg_from message, BotResponse_status xdaiBalanceFailed, [])]\<rparr>, Inr ())"
  using assms
  by (simp add: tweetSucceeded_def andThen_def sendMessageFromBot_def verifyBalance_def)

lemma tweetSucceeded_pass:
  assumes "started s" and "hm_balance e = Some balance"
    and "balance \<ge> COVERBOT_XDAI_THRESHOLD d"
    and "hm_ethAddress e = Some ethAddress" and "hm_scoreGet e" and "hm_scoreSet e"
    and "dd_answers (hm_dump e)"
  shows "\<exists>s'. tweetSucceeded d e message (Some t) s = (s', Inr ()) \<and>
           verifiedHoprNodes s' =
             AList.update (msg_from message)
               \<lparr>node_id = msg_from message, tweetId = tweet_id t, tweetUrl = tweet_url t,
                node_address = ethAddress\<rparr> (verifiedHoprNodes s) \<and>
           scoreDb s' = (if score_of s (msg_from message) = 0
                         then AList.update (msg_from message) (ScoreRewards_verified d) (scoreDb s)
                         else scoreDb s) \<and>
           outbox s' = outbox s @
               [(msg_from message, NodeStateResponse tweetVerificationSucceeded, []),
                (msg_from message, NodeStateResponse_balance xdaiBalanceSucceeded balance, []),
                (msg_from message, BotResponse_status xdaiBalanceSucceeded, [])] \<and>
           started s' = started s \<and> relayTimeouts s' = relayTimeouts s \<and>
           timers s' = timers s \<and> tweets s' = tweets s"
proof (cases "score_of s (msg_from message) = 0")
  case True
  then show ?thesis using assms
    by (simp add: tweetSucceeded_def andThen_def sendMessageFromBot_def verifyBalance_def
        getEthereumAddressFromHOPRAddress_def getHoprAddressScore_def setHoprAddressScore_def
        dumpData_ok score_of_def return_def)
next
  case False
  then show ?thesis using assms
    by (simp add: tweetSucceeded_def andThen_def sendMessageFromBot_def verifyBalance_def
        getEthereumAddressFromHOPRAddress_def getHoprAddressScore_def setHoprAddressScore_def
        dumpData_ok score_of_def return_def)
qed

text \<open>
  Claim C7. A message that is not a round trip, whose sender has no pending probe, that
  matches the pattern and whose attestation is fetched and found valid: when the balance
  reaches the threshold (and the address derivation, the score record and \<open>dumpData\<close>
  answer), the sender's ledger entry is written, the score record is written only if the
  score read was zero, then to \<open>ScoreRewards.verified\<close>, and one success notification
  with the balance is sent; when the balance is below the threshold, ledger and scores
  are unchanged and one failure notification with the balance is sent. Both cases end
  with the two status summaries.
\<close>

theorem valid_attestation:
  assumes "msg_from message \<noteq> address s"
    and "relayTimeouts s (msg_from message) = None"
    and "twitter_match (msg_text message)"
    and "started s"
    and "hm_fetch e = Some fetched"
    and "status_isValid d (status (classifyTweet d message fetched))"
    and "hm_balance e = Some balance"
  shows "let sender = msg_from message;
             tweet = classifyTweet d message fetched;
             s' = fst (handleMessage d e message s)
         in (balance \<ge> COVERBOT_XDAI_THRESHOLD d \<and> hm_ethAddress e = Some ethAddress \<and>
             hm_scoreGet e \<and> hm_scoreSet e \<and> dd_answers (hm_dump e) \<longrightarrow>
               snd (handleMessage d e message s) = Inr () \<and>
               verifiedHoprNodes s' =
                 AList.update sender
                   \<lparr>node_id = sender, tweetId = tweet_id tweet, tweetUrl = tweet_url tweet,
                    node_address = ethAddress\<rparr> (verifiedHoprNodes s) \<and>
               scoreDb s' = (if score_of s sender = 0
                             then AList.update sender (ScoreRewards_verified d) (scoreDb s)
                             else scoreDb s) \<and>
               outbox s' = outbox s @
                 [(sender, NodeStateResponse tweetVerificationInProgress, []),
                  (sender, NodeStateResponse tweetVerificationSucceeded, []),
                  (sender, NodeStateResponse_balance xdaiBalanceSucceeded balance, []),
                  (sender, BotResponse_status xdaiBalanceSucceeded, []),
                  (sender, BotResponse_status tweetVerificationSucceeded, [])]) \<and>
            (balance < COVERBOT_XDAI_THRESHOLD d \<longrightarrow>
               snd (handleMessage d e message s) = Inr () \<and>
               verifiedHoprNodes s' = verifiedHoprNodes s \<and>
               scoreDb s' = scoreDb s \<and>
               outbox s' = outbox s @
                 [(sender, NodeStateResponse tweetVerificationInProgress, []),
                  (sender, NodeStateResponse tweetVerificationSucceeded, []),
                  (sender, NodeStateResponse_balance xdaiBalanceFailed balance, []),
                  (sender, BotResponse_status xdaiBalanceFailed, []),
                  (sender, BotResponse_status tweetVerificationSucceeded, [])])"
proof -
  define s0 where
    "s0 = s\<lparr>outbox := outbox s @
              [(msg_from message, NodeStateResponse tweetVerificationInProgress, [])]\<rparr>"
  define s1 where
    "s1 = s0\<lparr>tweets := (tweets s0)(msg_from message \<mapsto> classifyTweet d message fetched)\<rparr>"
  have st: "started s1" using assms(4) by (simp add: s1_def s0_def)
  have hm: "handleMessage d e message s =
              andThen (tweetSucceeded d e message (Some (classifyTweet d message fetched)))
                (\<lambda>_. sendMessageFromBot (msg_from message)
                       (BotResponse_status tweetVerificationSucceeded) []) s1"
    unfolding handleMessage_attestation [OF assms(1-4)] s0_def [symmetric]
    by (simp add: andThen_Inr [OF verifyTweet_valid [OF assms(5,6)]] s1_def)
  have low: ?thesis if b: "balance < COVERBOT_XDAI_THRESHOLD d"
  proof -
    have nb: "\<not> balance \<ge> COVERBOT_XDAI_THRESHOLD d" using b by simp
    show ?thesis
      using b unfolding hm Let_def
      by (simp add: andThen_def tweetSucceeded_low [OF st assms(7) nb] sendMessageFromBot_def st)
         (simp add: s1_def s0_def)
  qed
  have pass: ?thesis
    if b: "balance \<ge> COVERBOT_XDAI_THRESHOLD d" and ok: "hm_ethAddress e = Some ethAddress"
      "hm_scoreGet e" "hm_scoreSet e" "dd_answers (hm_dump e)"
  proof -
    obtain s2 where run: "tweetSucceeded d e message (Some (classifyTweet d message fetched)) s1 =
                            (s2, Inr ())"
      and v: "verifiedHoprNodes s2 =
                AList.update (msg_from message)
                  \<lparr>node_id = msg_from message, tweetId = tweet_id (classifyTweet d message fetched),
                   tweetUrl = tweet_url (classifyTweet d message fetched),
                   node_address = ethAddress\<rparr> (verifiedHoprNodes s1)"
      and sc: "scoreDb s2 = (if score_of s1 (msg_from message) = 0
                             then AList.update (msg_from message) (ScoreRewards_verified d) (scoreDb s1)
                             else scoreDb s1)"
      and ob: "outbox s2 = outbox s1 @
               [(msg_from message, NodeStateResponse tweetVerificationSucceeded, []),
                (msg_from message, NodeStateResponse_balance xdaiBalanceSucceeded balance, []),
                (msg_from message, BotResponse_status xdaiBalanceSucceeded, [])]"
      and st2: "started s2 = started s1"
      using tweetSucceeded_pass [OF st assms(7) b ok, of message "classifyTweet d message fetched"]
      by blast
    have sc1: "score_of s1 (msg_from message) = score_of s (msg_from message)"
      by (simp add: score_of_def s1_def s0_def)
    show ?thesis
      using b unfolding hm Let_def
      by (simp add: andThen_def run sendMessageFromBot_def st st2 v sc ob sc1)
         (simp add: s1_def s0_def)
  qed
  show ?thesis
    using low pass by (cases "balance < COVERBOT_XDAI_THRESHOLD d") (auto simp: Let_def)
qed

theorem valid_attestation_witness:
  "verifiedHoprNodes (fst (handleMessage sample_deps sample_hm attestation_message fresh_bot)) =
     [(''16Uiu2HAmPeer'', \<lparr>node_id = ''16Uiu2HAmPeer'', tweetId = ''1'',
         tweetUrl = ''https://twitter.com/peer/status/1'', node_address = ''0xabc''\<rparr>)] \<and>
   scoreDb (fst (handleMessage sample_deps sample_hm attestation_message fresh_bot)) =
     [(''16Uiu2HAmPeer'', 100)] \<and>
   outbox (fst (handleMessage sample_deps sample_hm attestation_message fresh_bot)) =
     [(''16Uiu2HAmPeer'', NodeStateResponse tweetVerificationInProgress, []),
      (''16Uiu2HAmPeer'', NodeStateResponse tweetVerificationSucceeded, []),
      (''16Uiu2HAmPeer'', NodeStateResponse_balance xdaiBalanceSucceeded 5, []),
      (''16Uiu2HAmPeer'', BotResponse_status xdaiBalanceSucceeded, []),
      (''16Uiu2HAmPeer'', BotResponse_status tweetVerificationSucceeded, [])] \<and>
   verifiedHoprNodes (fst (handleMessage sample_deps (sample_hm\<lparr>hm_balance := Some 0\<rparr>)
                             attestation_message fresh_bot)) = [] \<and>
   scoreDb (fst (handleMessage sample_deps (sample_hm\<lparr>hm_balance := Some 0\<rparr>)
                   attestation_message fresh_bot)) = [] \<and>
   outbox (fst (handleMessage sample_deps (sample_hm\<lparr>hm_balance := Some 0\<rparr>)
                  attestation_message fresh_bot)) =
     [(''16Uiu2HAmPeer'', NodeStateResponse tweetVerificationInProgress, []),
      (''16Uiu2HAmPeer'', NodeStateResponse tweetVerificationSucceeded, []),
      (''16Uiu2HAmPeer'', NodeStateResponse_balance xdaiBalanceFailed 0, []),
      (''16Uiu2HAmPeer'', BotResponse_status xdaiBalanceFailed, []),
      (''16Uiu2HAmPeer'', BotResponse_status tweetVerificationSucceeded, [])]"
proof -
  have a: "msg_from attestation_message \<noteq> address fresh_bot"
    by (simp add: attestation_message_facts fresh_bot_facts)
  have b: "relayTimeouts fresh_bot (msg_from attestation_message) = None"
    by (simp add: fresh_bot_facts)
  have v: "status_isValid sample_deps
             (status (classifyTweet sample_deps attestation_message sample_tweet))"
    by (simp add: sample_classify sample_deps_facts)
  have z: "score_of fresh_bot ''16Uiu2HAmPeer'' = 0"
    by (simp add: score_of_def fresh_bot_facts)
  have f0: "hm_fetch (sample_hm\<lparr>hm_balance := Some 0\<rparr>) = Some sample_tweet"
    and b0: "hm_balance (sample_hm\<lparr>hm_balance := Some 0\<rparr>) = Some 0"
    by (simp_all add: sample_hm_facts)
  show ?thesis
    using valid_attestation [OF a b attestation_message_facts(3) fresh_bot_facts(1)
            sample_hm_facts(1) v sample_hm_facts(2), of "''0xabc''"]
          valid_attestation [OF a b attestation_message_facts(3) fresh_bot_facts(1) f0 v b0,
            of "''0xabc''"]
    by (simp add: Let_def sample_deps_facts sample_hm_facts sample_relayed_facts
        attestation_message_facts fresh_bot_facts z sample_classify_fields)
qed

section \<open>The status summary\<close>

lemma handleMessage_unverified:
  assumes "msg_from message \<noteq> address s"
    and "relayTimeouts s (msg_from message) = None"
    and "started s"
    and "\<not> twitter_match (msg_text message)"
  shows "handleMessage d e message s =
           (s\<lparr>outbox := outbox s @
                [(msg_from message, NodeStateResponse newUnverifiedNode, []),
                 (msg_from message, BotResponse_status newUnverifiedNode, [])]\<rparr>, Inr ())"
  using assms by (simp add: handleMessage_def andThen_def return_def sendMessageFromBot_def)

lemma handleMessage_invalid:
  assumes "msg_from message \<noteq> address s"
    and "relayTimeouts s (msg_from message) = None"
    and "started s"
    and "twitter_match (msg_text message)"
    and "hm_fetch e = Some fetched"
    and "\<not> status_isValid d (status (classifyTweet d message fetched))"
  shows "handleMessage d e message s =
           (s\<lparr>outbox := outbox s @
                [(msg_from message, NodeStateResponse tweetVerificationInProgress, []),
                 (msg_from message, NodeStateResponse_status tweetVerificationFailed
                                      (status (classifyTweet d message fetched)), []),
                 (msg_from message, BotResponse_status tweetVerificationFailed, [])],
              tweets := (tweets s)(msg_from message \<mapsto> classifyTweet d message fetched)\<rparr>,
            Inr ())"
  unfolding handleMessage_attestation [OF assms(1,2,4,3)]
  using assms(3,5,6)
  by (simp add: andThen_def verifyTweet_def Let_def sendMessageFromBot_def)

lemma handleMessage_valid:
  assumes "msg_from message \<noteq> address s"
    and "relayTimeouts s (msg_from message) = None"
    and "started s"
    and "twitter_match (msg_text message)"
    and "hm_fetch e = Some fetched"
    and "status_isValid d (status (classifyTweet d message fetched))"
  shows "handleMessage d e message s =
           andThen (tweetSucceeded d e message (Some (classifyTweet d message fetched)))
             (\<lambda>_. sendMessageFromBot (msg_from message)
                    (BotResponse_status tweetVerificationSucceeded) [])
             (s\<lparr>outbox := outbox s @
                  [(msg_from message, NodeStateResponse tweetVerificationInProgress, [])],
                tweets := (tweets s)(msg_from message \<mapsto> classifyTweet d message fetched)\<rparr>)"
  unfolding handleMessage_attestation [OF assms(1,2,4,3)]
  by (simp add: andThen_Inr [OF verifyTweet_valid [OF assms(5,6)]])

lemma handleMessage_valid_outbox:
  assumes "msg_from message \<noteq> address s"
    and "relayTimeouts s (msg_from message) = None"
    and "started s"
    and "twitter_match (msg_text message)"
    and "hm_fetch e = Some fetched"
    and "status_isValid d (status (classifyTweet d message fetched))"
    and "hm_balance e = Some balance"
    and "hm_ethAddress e = Some ethAddress" and "hm_scoreGet e" and "hm_scoreSet e"
    and "dd_answers (hm_dump e)"
  shows "snd (handleMessage d e message s) = Inr ()"
    and "outbox (fst (handleMessage d e message s)) = outbox s @
           [(msg_from message, NodeStateResponse tweetVerificationInProgress, []),
            (msg_from message, NodeStateResponse tweetVerificationSucceeded, []),
            (msg_from message,
             NodeStateResponse_balance
               (if balance \<ge> COVERBOT_XDAI_THRESHOLD d then xdaiBalanceSucceeded
                else xdaiBalanceFailed) balance, []),
            (msg_from message,
             BotResponse_status
               (if balance \<ge> COVERBOT_XDAI_THRESHOLD d then xdaiBalanceSucceeded
                else xdaiBalanceFailed), []),
            (msg_from message, BotResponse_status tweetVerificationSucceeded, [])]"
proof -
  define s1 where
    "s1 = s\<lparr>outbox := outbox s @
               [(msg_from message, NodeStateResponse tweetVerificationInProgress, [])],
             tweets := (tweets s)(msg_from message \<mapsto> classifyTweet d message fetched)\<rparr>"
  have st: "started s1" using assms(3) by (simp add: s1_def)
  note hm = handleMessage_valid [OF assms(1-6), folded s1_def]
  have "snd (handleMessage d e message s) = Inr () \<and>
        outbox (fst (handleMessage d e message s)) = outbox s @
           [(msg_from message, NodeStateResponse tweetVerificationInProgress, []),
            (msg_from message, NodeStateResponse tweetVerificationSucceeded, []),
            (msg_from message,
             NodeStateResponse_balance
               (if balance \<ge> COVERBOT_XDAI_THRESHOLD d then xdaiBalanceSucceeded
                else xdaiBalanceFailed) balance, []),
            (msg_from message,
             BotResponse_status
               (if balance \<ge> COVERBOT_XDAI_THRESHOLD d then xdaiBalanceSucceeded
                else xdaiBalanceFailed), []),
            (msg_from message, BotResponse_status tweetVerificationSucceeded, [])]"
  proof (cases "balance \<ge> COVERBOT_XDAI_THRESHOLD d")
    case True
    obtain s2 where run: "tweetSucceeded d e message (Some (classifyTweet d message fetched)) s1 =
                            (s2, Inr ())"
      and ob: "outbox s2 = outbox s1 @
               [(msg_from message, NodeStateResponse tweetVerificationSucceeded, []),
                (msg_from message, NodeStateResponse_balance xdaiBalanceSucceeded balance, []),
                (msg_from message, BotResponse_status xdaiBalanceSucceeded, [])]"
      and st2: "started s2 = started s1"
      using tweetSucceeded_pass [OF st assms(7) True assms(8-11), of message
          "classifyTweet d message fetched"]
      by blast
    show ?thesis
      using True unfolding hm
      by (simp add: andThen_def run sendMessageFromBot_def st st2 ob) (simp add: s1_def)
  next
    case False
    show ?thesis
      using False unfolding hm
      by (simp add: andThen_def tweetSucceeded_low [OF st assms(7) False] sendMessageFromBot_def st)
         (simp add: s1_def)
  qed
  then show "snd (handleMessage d e message s) = Inr ()"
    and "outbox (fst (handleMessage d e message s)) = outbox s @
           [(msg_from message, NodeStateResponse tweetVerificationInProgress, []),
            (msg_from message, NodeStateResponse tweetVerificationSucceeded, []),
            (msg_from message,
             NodeStateResponse_balance
               (if balance \<ge> COVERBOT_XDAI_THRESHOLD d then xdaiBalanceSucceeded
                else xdaiBalanceFailed) balance, []),
            (msg_from message,
             BotResponse_status
               (if balance \<ge> COVERBOT_XDAI_THRESHOLD d then xdaiBalanceSucceeded
                else xdaiBalanceFailed), []),
            (msg_from message, BotResponse_status tweetVerificationSucceeded, [])]"
    by simp_all
qed

lemma handleMessage_balance_fails:
  assumes "msg_from message \<noteq> address s"
    and "relayTimeouts s (msg_from message) = None"
    and "started s"
    and "twitter_match (msg_text message)"
    and "hm_fetch e = Some fetched"
    and "status_isValid d (status (classifyTweet d message fetched))"
    and "hm_balance e = None"
  shows "handleMessage d e message s =
           (s\<lparr>outbox := outbox s @
                [(msg_from message, NodeStateResponse tweetVerificationInProgress, []),
                 (msg_from message, NodeStateResponse tweetVerificationSucceeded, [])],
              tweets := (tweets s)(msg_from message \<mapsto> classifyTweet d message fetched)\<rparr>,
            Inl ChainError)"
  unfolding handleMessage_valid [OF assms(1-6)]
  using assms(3,7)
  by (simp add: andThen_def tweetSucceeded_def sendMessageFromBot_def verifyBalance_def)

text \<open>
  Claim C3 as stated fails: no collaborator call of \<open>handleMessage\<close> is guarded, so
  when the balance query of line 597 rejects after a valid attestation, the handler
  rejects with it and the sender has received two notices and no status summary.
\<close>

theorem balance_failure_no_status:
  "snd (handleMessage sample_deps (sample_hm\<lparr>hm_balance := None\<rparr>) attestation_message
          fresh_bot) = Inl ChainError \<and>
   outbox (fst (handleMessage sample_deps (sample_hm\<lparr>hm_balance := None\<rparr>)
                  attestation_message fresh_bot)) =
     [(''16Uiu2HAmPeer'', NodeStateResponse tweetVerificationInProgress, []),
      (''16Uiu2HAmPeer'', NodeStateResponse tweetVerificationSucceeded, [])]"
proof -
  have a: "msg_from attestation_message \<noteq> address fresh_bot"
    by (simp add: attestation_message_facts fresh_bot_facts)
  have b: "relayTimeouts fresh_bot (msg_from attestation_message) = None"
    by (simp add: fresh_bot_facts)
  have v: "status_isValid sample_deps
             (status (classifyTweet sample_deps attestation_message sample_tweet))"
    by (simp add: sample_classify sample_deps_facts)
  have f: "hm_fetch (sample_hm\<lparr>hm_balance := None\<rparr>) = Some sample_tweet"
    "hm_balance (sample_hm\<lparr>hm_balance := None\<rparr>) = None"
    by (simp_all add: sample_hm_facts)
  show ?thesis
    by (simp add: handleMessage_balance_fails
          [OF a b fresh_bot_facts(1) attestation_message_facts(3) f(1) v f(2)]
        fresh_bot_facts attestation_message_facts)
qed

text \<open>
  Claim C3, amended. For a message that is neither a round trip nor from an address with
  a pending probe, when the node is started and every collaborator call answers, the
  handler resolves, everything it sends goes to the sender, and the last thing it sends
  is the status summary of the message's node state, sent exactly once. (A valid
  attestation is preceded by one more status summary, that of the balance outcome.)
\<close>

theorem final_status_notification:
  assumes "msg_from message \<noteq> address s"
    and "relayTimeouts s (msg_from message) = None"
    and "started s"
    and "hm_fetch e = Some fetched" and "hm_balance e = Some balance"
    and "hm_ethAddress e = Some ethAddress" and "hm_scoreGet e" and "hm_scoreSet e"
    and "dd_answers (hm_dump e)"
  shows "let nodeState =
               (if \<not> twitter_match (msg_text message) then newUnverifiedNode
                else if status_isValid d (status (classifyTweet d message fetched))
                     then tweetVerificationSucceeded else tweetVerificationFailed);
             trailer = (msg_from message, BotResponse_status nodeState, []);
             s' = fst (handleMessage d e message s);
             new = drop (length (outbox s)) (outbox s')
         in snd (handleMessage d e message s) = Inr () \<and>
            take (length (outbox s)) (outbox s') = outbox s \<and>
            last new = trailer \<and>
            count_list new trailer = 1 \<and>
            list_all (\<lambda>m. fst m = msg_from message) new"
proof (cases "twitter_match (msg_text message)")
  case False
  show ?thesis
    using False by (simp add: handleMessage_unverified [OF assms(1-3) False] Let_def)
next
  case True
  show ?thesis
  proof (cases "status_isValid d (status (classifyTweet d message fetched))")
    case False
    show ?thesis
      using True False
      by (simp add: handleMessage_invalid [OF assms(1-3) True assms(4) False] Let_def)
  next
    case valid: True
    show ?thesis
      using True valid
      by (simp add: handleMessage_valid_outbox [OF assms(1-3) True assms(4) valid assms(5-9)]
          Let_def)
  qed
qed

theorem final_status_notification_witness:
  "outbox (fst (handleMessage sample_deps sample_hm greeting fresh_bot)) =
     [(''16Uiu2HAmPeer'', NodeStateResponse newUnverifiedNode, []),
      (''16Uiu2HAmPeer'', BotResponse_status newUnverifiedNode, [])] \<and>
   last (outbox (fst (handleMessage sample_deps sample_hm attestation_message fresh_bot))) =
     (''16Uiu2HAmPeer'', BotResponse_status tweetVerificationSucceeded, []) \<and>
   count_list (outbox (fst (handleMessage sample_deps sample_hm attestation_message fresh_bot)))
     (''16Uiu2HAmPeer'', BotResponse_status tweetVerificationSucceeded, []) = 1"
proof -
  have g: "msg_from greeting \<noteq> address fresh_bot"
    "relayTimeouts fresh_bot (msg_from greeting) = None" "\<not> twitter_match (msg_text greeting)"
    by (simp_all add: greeting_def fresh_bot_facts match_here_def lower_def)
  have a: "msg_from attestation_message \<noteq> address fresh_bot"
    "relayTimeouts fresh_bot (msg_from attestation_message) = None"
    by (simp_all add: attestation_message_facts fresh_bot_facts)
  have v: "status_isValid sample_deps
             (status (classifyTweet sample_deps attestation_message sample_tweet))"
    by (simp add: sample_classify sample_deps_facts)
  have k: "dd_answers (hm_dump sample_hm)" by (simp add: sample_hm_facts)
  note env = sample_hm_facts(1-3) sample_relayed_facts(4,5) k
  have f: "drop (length (outbox fresh_bot)) xs = xs" for xs :: "sent list"
    by (simp add: fresh_bot_facts)
  have 1: "outbox (fst (handleMessage sample_deps sample_hm greeting fresh_bot)) =
     [(''16Uiu2HAmPeer'', NodeStateResponse newUnverifiedNode, []),
      (''16Uiu2HAmPeer'', BotResponse_status newUnverifiedNode, [])]"
    by (simp add: handleMessage_unverified [OF g(1,2) fresh_bot_facts(1) g(3)] fresh_bot_facts)
       (simp add: greeting_def)
  have 2: "last (outbox (fst (handleMessage sample_deps sample_hm attestation_message fresh_bot))) =
     (''16Uiu2HAmPeer'', BotResponse_status tweetVerificationSucceeded, []) \<and>
   count_list (outbox (fst (handleMessage sample_deps sample_hm attestation_message fresh_bot)))
     (''16Uiu2HAmPeer'', BotResponse_status tweetVerificationSucceeded, []) = 1"
    using final_status_notification [OF a fresh_bot_facts(1) env, of sample_deps]
    unfolding Let_def f
    by (simp only: attestation_message_facts(3) v attestation_message_facts(1) if_True if_False
        not_True_eq_False)
  show ?thesis using 1 2 by simp
qed

section \<open>A rejected attestation fetch\<close>

lemma handleMessage_fetch_fails:
  assumes "msg_from message \<noteq> address s"
    and "relayTimeouts s (msg_from message) = None"
    and "twitter_match (msg_text message)"
    and "started s"
    and "hm_fetch e = None"
  shows "handleMessage d e message s =
           (s\<lparr>outbox := outbox s @
                 [(msg_from message, NodeStateResponse tweetVerificationInProgress, [])],
              tweets := (tweets s)(msg_from message \<mapsto> newTweetMessage d (msg_text message))\<rparr>,
            Inl FetchError)"
  unfolding handleMessage_attestation [OF assms(1-4)]
  by (simp add: andThen_def verifyTweet_def assms(5))

text \<open>
  Claim C4, on the code. The fetch of line 484 has no handler (the source marks it
  \<open>@TODO: Catch error here\<close>): when it rejects, \<open>_verifyTweet\<close> rejects with the
  same error instead of answering \<open>tweetVerificationFailed\<close>, and so does
  \<open>handleMessage\<close>, after the in-progress notice of line 570 and nothing else.
\<close>

theorem fetch_failure_escapes:
  "snd (verifyTweet sample_deps (sample_hm\<lparr>hm_fetch := None\<rparr>) attestation_message fresh_bot) =
     Inl FetchError \<and>
   snd (handleMessage sample_deps (sample_hm\<lparr>hm_fetch := None\<rparr>) attestation_message fresh_bot) =
     Inl FetchError \<and>
   outbox (fst (handleMessage sample_deps (sample_hm\<lparr>hm_fetch := None\<rparr>)
                  attestation_message fresh_bot)) =
     [(''16Uiu2HAmPeer'', NodeStateResponse tweetVerificationInProgress, [])]"
proof -
  have a: "msg_from attestation_message \<noteq> address fresh_bot"
    by (simp add: attestation_message_facts fresh_bot_facts)
  have b: "relayTimeouts fresh_bot (msg_from attestation_message) = None"
    by (simp add: fresh_bot_facts)
  have f: "hm_fetch (sample_hm\<lparr>hm_fetch := None\<rparr>) = None" by simp
  show ?thesis
    by (simp add: handleMessage_fetch_fails [OF a b attestation_message_facts(3) fresh_bot_facts(1) f]
        verifyTweet_def fresh_bot_facts attestation_message_facts)
qed

section \<open>Probe timeouts\<close>

lemma begin_selects:
  assumes "loadedDb s" and "dd_answers (vc_dump e)" and "relayTimestamp s \<le> vc_now e"
    and "\<lfloor>vc_random e * of_nat (length (verifiedHoprNodes s))\<rfloor> = int i"
    and "i < length (verifiedHoprNodes s)"
  shows "verificationCycle_begin d e s =
           (dumped (vc_dump e) s,
            Inr (if relayTimeouts s (node_id (snd (verifiedHoprNodes s ! i))) \<noteq> None then None
                 else Some (snd (verifiedHoprNodes s ! i))))"
proof -
  have "(0::int) \<le> \<lfloor>vc_random e * of_nat (length (verifiedHoprNodes s))\<rfloor>"
    unfolding assms(4) by simp
  then have nn: "0 \<le> vc_random e * of_nat (length (verifiedHoprNodes s))"
    by simp
  show ?thesis
    using assms(1-3,5)
    by (simp add: verificationCycle_begin_def andThen_def dumpData_ok Let_def assms(4) nn)
qed

lemma relayTimeout_run:
  assumes "timers s t = Some a" and "started s"
  shows "relayTimeout t s =
           (s\<lparr>timers := (timers s)(t := None),
              outbox := outbox s @ [(a, NodeStateResponse relayingNodeFailed, [])],
              relayTimeouts := (relayTimeouts s)(a := None)\<rparr>, Inr ())"
  using assms by (simp add: relayTimeout_def andThen_def sendMessageFromBot_def)

text \<open>
  Claim C8. When the timeout of a probe fires (the timer is live and the node started),
  the callback sends one \<open>relayingNodeFailed\<close> notification to the probed address and
  removes its entry of \<open>relayTimeouts\<close>; scores and verified nodes are unchanged; and
  a later tick that picks the verified node with that id is not refused by the guard of
  line 373: it goes on to start a probe for it.
\<close>

theorem probe_timeout:
  assumes "timers s t = Some a" and "started s"
  shows "let s' = fst (relayTimeout t s)
         in snd (relayTimeout t s) = Inr () \<and>
            outbox s' = outbox s @ [(a, NodeStateResponse relayingNodeFailed, [])] \<and>
            relayTimeouts s' = (relayTimeouts s)(a := None) \<and>
            timers s' = (timers s)(t := None) \<and>
            scoreDb s' = scoreDb s \<and>
            verifiedHoprNodes s' = verifiedHoprNodes s \<and>
            (loadedDb s \<and> dd_answers (vc_dump e) \<and> relayTimestamp s \<le> vc_now e \<and>
             \<lfloor>vc_random e * of_nat (length (verifiedHoprNodes s))\<rfloor> = int i \<and>
             i < length (verifiedHoprNodes s) \<and>
             node_id (snd (verifiedHoprNodes s ! i)) = a \<longrightarrow>
               snd (verificationCycle_begin d e s') = Inr (Some (snd (verifiedHoprNodes s ! i))))"
proof -
  define s' where "s' = fst (relayTimeout t s)"
  have s': "relayTimeout t s = (s', Inr ())" "outbox s' = outbox s @ [(a, NodeStateResponse relayingNodeFailed, [])]"
    "relayTimeouts s' = (relayTimeouts s)(a := None)" "timers s' = (timers s)(t := None)"
    "scoreDb s' = scoreDb s" "verifiedHoprNodes s' = verifiedHoprNodes s"
    "loadedDb s' = loadedDb s" "relayTimestamp s' = relayTimestamp s"
    by (simp_all add: s'_def relayTimeout_run [OF assms])
  have "snd (verificationCycle_begin d e s') = Inr (Some (snd (verifiedHoprNodes s ! i)))"
    if "loadedDb s" "dd_answers (vc_dump e)" "relayTimestamp s \<le> vc_now e"
      "\<lfloor>vc_random e * of_nat (length (verifiedHoprNodes s))\<rfloor> = int i"
      "i < length (verifiedHoprNodes s)" "node_id (snd (verifiedHoprNodes s ! i)) = a"
    using that begin_selects [of s' e i d] by (simp add: s')
  then show ?thesis
    unfolding Let_def s'_def [symmetric] by (simp add: s')
qed

theorem probe_timeout_witness:
  "timers probing_bot 0 = Some ''16Uiu2HAmPeer'' \<and>
   score_of probing_bot ''16Uiu2HAmPeer'' = 0 \<and>
   snd (relayTimeout 0 probing_bot) = Inr () \<and>
   outbox (fst (relayTimeout 0 probing_bot)) =
     [(''16Uiu2HAmPeer'', NodeStateResponse relayingNodeFailed, [])] \<and>
   relayTimeouts (fst (relayTimeout 0 probing_bot)) ''16Uiu2HAmPeer'' = None \<and>
   score_of (fst (relayTimeout 0 probing_bot)) ''16Uiu2HAmPeer'' = 0 \<and>
   verifiedHoprNodes (fst (relayTimeout 0 probing_bot)) = [(''16Uiu2HAmPeer'', sample_node)] \<and>
   snd (verificationCycle_begin sample_deps sample_vc (fst (relayTimeout 0 probing_bot))) =
     Inr (Some sample_node)"
proof -
  have t: "timers probing_bot 0 = Some ''16Uiu2HAmPeer''" by (simp add: probing_bot_facts)
  have n: "node_id sample_node = ''16Uiu2HAmPeer''" by (simp add: sample_node_def)
  show ?thesis
    using probe_timeout [OF t probing_bot_facts(1), of sample_vc 0 sample_deps]
    by (simp add: Let_def probing_bot_facts sample_vc_facts score_of_def n)
qed

section \<open>The guards on a pending probe\<close>

text \<open>
  The guards of lines 546 and 373 as they work when the entry exists at the time of the
  check: a message from an address with an entry gets the in-progress notice and changes
  nothing else; a tick that picks a node whose id has an entry ends after
  \<open>dumpData\<close>, with probe map, timers, verified nodes, scores and outbox unchanged.
\<close>

theorem pending_probe_guards:
  assumes "started s"
  shows "(msg_from message \<noteq> address s \<and> relayTimeouts s (msg_from message) \<noteq> None \<longrightarrow>
            handleMessage d e message s =
              (s\<lparr>outbox := outbox s @
                   [(msg_from message, NodeStateResponse relayingNodeInProgress, [])]\<rparr>, Inr ())) \<and>
         (loadedDb s \<and> dd_answers (vc_dump v) \<and> relayTimestamp s \<le> vc_now v \<and>
          \<lfloor>vc_random v * of_nat (length (verifiedHoprNodes s))\<rfloor> = int i \<and>
          i < length (verifiedHoprNodes s) \<and>
          relayTimeouts s (node_id (snd (verifiedHoprNodes s ! i))) \<noteq> None \<longrightarrow>
            snd (verificationCycle d v p s) = Inr () \<and>
            relayTimeouts (fst (verificationCycle d v p s)) = relayTimeouts s \<and>
            timers (fst (verificationCycle d v p s)) = timers s \<and>
            verifiedHoprNodes (fst (verificationCycle d v p s)) = verifiedHoprNodes s \<and>
            scoreDb (fst (verificationCycle d v p s)) = scoreDb s \<and>
            outbox (fst (verificationCycle d v p s)) = outbox s)"
proof (rule conjI; rule impI)
  assume "msg_from message \<noteq> address s \<and> relayTimeouts s (msg_from message) \<noteq> None"
  then show "handleMessage d e message s =
              (s\<lparr>outbox := outbox s @
                   [(msg_from message, NodeStateResponse relayingNodeInProgress, [])]\<rparr>, Inr ())"
    using assms by (auto simp: handleMessage_def sendMessageFromBot_def)
next
  assume a: "loadedDb s \<and> dd_answers (vc_dump v) \<and> relayTimestamp s \<le> vc_now v \<and>
          \<lfloor>vc_random v * of_nat (length (verifiedHoprNodes s))\<rfloor> = int i \<and>
          i < length (verifiedHoprNodes s) \<and>
          relayTimeouts s (node_id (snd (verifiedHoprNodes s ! i))) \<noteq> None"
  then have b: "verificationCycle_begin d v s = (dumped (vc_dump v) s, Inr None)"
    using begin_selects [of s v i d] by simp
  have r: "verificationCycle d v p s = (dumped (vc_dump v) s, Inr ())"
    by (simp add: verificationCycle_def andThen_def b)
  show "snd (verificationCycle d v p s) = Inr () \<and>
            relayTimeouts (fst (verificationCycle d v p s)) = relayTimeouts s \<and>
            timers (fst (verificationCycle d v p s)) = timers s \<and>
            verifiedHoprNodes (fst (verificationCycle d v p s)) = verifiedHoprNodes s \<and>
            scoreDb (fst (verificationCycle d v p s)) = scoreDb s \<and>
            outbox (fst (verificationCycle d v p s)) = outbox s"
    by (simp add: r)
qed

theorem pending_probe_guards_witness:
  "handleMessage sample_deps sample_hm attestation_message probing_bot =
     (probing_bot\<lparr>outbox := [(''16Uiu2HAmPeer'', NodeStateResponse relayingNodeInProgress, [])]\<rparr>,
      Inr ()) \<and>
   snd (verificationCycle sample_deps sample_vc sample_pr probing_bot) = Inr () \<and>
   relayTimeouts (fst (verificationCycle sample_deps sample_vc sample_pr probing_bot)) =
     [''16Uiu2HAmPeer'' \<mapsto> 0] \<and>
   timers (fst (verificationCycle sample_deps sample_vc sample_pr probing_bot)) =
     [0 \<mapsto> ''16Uiu2HAmPeer''] \<and>
   outbox (fst (verificationCycle sample_deps sample_vc sample_pr probing_bot)) = []"
  using pending_probe_guards [OF probing_bot_facts(1), where message = attestation_message
      and v = sample_vc and i = 0 and d = sample_deps and e = sample_hm and p = sample_pr]
  by (simp add: attestation_message_facts probing_bot_facts sample_vc_facts sample_pr_facts)

section \<open>Overlapping ticks\<close>

lemma startProbe_run:
  assumes "started s" and "pr_fetch e = Some tweet"
    and "tweet_getHOPRNode d (COVERBOT_DEBUG_MODE d) (COVERBOT_DEBUG_HOPR_ADDRESS d) tweet = a"
    and "a \<noteq> []" and "pr_channel e = Some c"
  shows "startProbe d e n s =
           (s\<lparr>outbox := outbox s @
                 [(a, BotResponse_verify, []), (a, NodeStateResponse onlineNode, []),
                  (a, OpenedChannel c, []), (address s, RelayingPackage a, [a])],
              timers := (timers s)(nextTimer s \<mapsto> a),
              nextTimer := nextTimer s + 1,
              relayTimeouts := (relayTimeouts s)(a \<mapsto> nextTimer s)\<rparr>, Inr ())"
  using assms
  by (simp add: startProbe_def andThen_def sendMessageFromBot_def openPaymentChannel_def
      setTimeout_def Let_def)

lemma step_TickBegin:
  assumes "loadedDb s" and "dd_answers (vc_dump e)" and "relayTimestamp s \<le> vc_now e"
    and "\<lfloor>vc_random e * of_nat (length (verifiedHoprNodes s))\<rfloor> = int i"
    and "i < length (verifiedHoprNodes s)"
    and "relayTimeouts s (node_id (snd (verifiedHoprNodes s ! i))) = None"
  shows "step d (EvTickBegin e) s =
           (dumped (vc_dump e) s)\<lparr>suspended := suspended s @ [snd (verifiedHoprNodes s ! i)]\<rparr>"
  by (simp add: step_def begin_selects [OF assms(1-5)] assms(6))

lemma step_TickResume:
  assumes "suspended s = n # ns" and "started s" and "pr_fetch e = Some tweet"
    and "tweet_getHOPRNode d (COVERBOT_DEBUG_MODE d) (COVERBOT_DEBUG_HOPR_ADDRESS d) tweet = a"
    and "a \<noteq> []" and "pr_channel e = Some c"
  shows "step d (EvTickResume 0 e) s =
           s\<lparr>suspended := ns,
              outbox := outbox s @
                 [(a, BotResponse_verify, []), (a, NodeStateResponse onlineNode, []),
                  (a, OpenedChannel c, []), (address s, RelayingPackage a, [a])],
              timers := (timers s)(nextTimer s \<mapsto> a),
              nextTimer := nextTimer s + 1,
              relayTimeouts := (relayTimeouts s)(a \<mapsto> nextTimer s)\<rparr>"
proof -
  have "started (s\<lparr>suspended := ns\<rparr>)" using assms(2) by simp
  from startProbe_run [OF this assms(3-6)] show ?thesis
    by (simp add: step_def verificationCycle_probe_def assms(1))
qed

lemma started_bot_loaded:
  "step sample_deps (EvLoadData sample_ld) started_bot =
     started_bot\<lparr>verifiedHoprNodes := [(''16Uiu2HAmPeer'', sample_node)], loadedDb := True\<rparr>"
  by (simp add: step_def loadData_def loadData_begin_def loadData_end_def return_def andThen_def
      started_bot_def newCoverbot_def sample_ld_def sample_deps_def truthy_def stored_state_def
      sample_node_def)

lemma first_tick_begun:
  fixes s1
  defines "s1 \<equiv> exec sample_deps [EvLoadData sample_ld, EvTickBegin sample_vc] started_bot"
  shows "suspended s1 = [sample_node]" "relayTimeouts s1 = Map.empty" "timers s1 = Map.empty"
    "outbox s1 = []" "started s1" "loadedDb s1" "relayTimestamp s1 = 0" "nextTimer s1 = 0"
    "verifiedHoprNodes s1 = [(''16Uiu2HAmPeer'', sample_node)]" "address s1 = ''16Uiu2HAmBot''"
proof -
  define s0 where
    "s0 = started_bot\<lparr>verifiedHoprNodes := [(''16Uiu2HAmPeer'', sample_node)], loadedDb := True\<rparr>"
  have s0: "loadedDb s0" "relayTimestamp s0 \<le> vc_now sample_vc"
    "\<lfloor>vc_random sample_vc * of_nat (length (verifiedHoprNodes s0))\<rfloor> = int 0"
    "0 < length (verifiedHoprNodes s0)"
    "relayTimeouts s0 (node_id (snd (verifiedHoprNodes s0 ! 0))) = None"
    by (simp_all add: s0_def started_bot_def newCoverbot_def sample_vc_facts)
  have "s1 = (dumped (vc_dump sample_vc) s0)\<lparr>suspended := suspended s0 @ [snd (verifiedHoprNodes s0 ! 0)]\<rparr>"
    unfolding s1_def
    by (simp add: started_bot_loaded s0_def [symmetric]
        step_TickBegin [OF s0(1) sample_vc_facts(1) s0(2-5)])
  then show "suspended s1 = [sample_node]" "relayTimeouts s1 = Map.empty" "timers s1 = Map.empty"
    "outbox s1 = []" "started s1" "loadedDb s1" "relayTimestamp s1 = 0" "nextTimer s1 = 0"
    "verifiedHoprNodes s1 = [(''16Uiu2HAmPeer'', sample_node)]" "address s1 = ''16Uiu2HAmBot''"
    by (simp_all add: s0_def started_bot_def newCoverbot_def)
qed

lemma second_tick_begun:
  fixes s2
  defines "s2 \<equiv> exec sample_deps [EvLoadData sample_ld, EvTickBegin sample_vc,
                                    EvTickBegin sample_vc] started_bot"
  shows "suspended s2 = [sample_node, sample_node]" "relayTimeouts s2 = Map.empty"
    "timers s2 = Map.empty" "outbox s2 = []" "started s2" "loadedDb s2"
    "relayTimestamp s2 = 0" "nextTimer s2 = 0"
    "verifiedHoprNodes s2 = [(''16Uiu2HAmPeer'', sample_node)]" "address s2 = ''16Uiu2HAmBot''"
proof -
  define s1 where "s1 = exec sample_deps [EvLoadData sample_ld, EvTickBegin sample_vc] started_bot"
  note f = first_tick_begun [folded s1_def]
  have c: "relayTimestamp s1 \<le> vc_now sample_vc"
    "\<lfloor>vc_random sample_vc * of_nat (length (verifiedHoprNodes s1))\<rfloor> = int 0"
    "0 < length (verifiedHoprNodes s1)"
    "relayTimeouts s1 (node_id (snd (verifiedHoprNodes s1 ! 0))) = None"
    by (simp_all add: f sample_vc_facts)
  have "s2 = step sample_deps (EvTickBegin sample_vc) s1"
    by (simp add: s2_def s1_def)
  then have "s2 = (dumped (vc_dump sample_vc) s1)\<lparr>suspended := suspended s1 @ [snd (verifiedHoprNodes s1 ! 0)]\<rparr>"
    by (simp add: step_TickBegin [OF f(6) sample_vc_facts(1) c])
  then show "suspended s2 = [sample_node, sample_node]" "relayTimeouts s2 = Map.empty"
    "timers s2 = Map.empty" "outbox s2 = []" "started s2" "loadedDb s2"
    "relayTimestamp s2 = 0" "nextTimer s2 = 0"
    "verifiedHoprNodes s2 = [(''16Uiu2HAmPeer'', sample_node)]" "address s2 = ''16Uiu2HAmBot''"
    by (simp_all add: f)
qed

lemma both_ticks_resumed:
  fixes s4
  defines "s4 \<equiv> exec sample_deps overlapping_ticks started_bot"
  shows "suspended s4 = []"
    "relayTimeouts s4 = [''16Uiu2HAmPeer'' \<mapsto> 1]"
    "timers s4 = [0 \<mapsto> ''16Uiu2HAmPeer'', 1 \<mapsto> ''16Uiu2HAmPeer'']"
    "outbox s4 =
       [(''16Uiu2HAmPeer'', BotResponse_verify, []),
        (''16Uiu2HAmPeer'', NodeStateResponse onlineNode, []),
        (''16Uiu2HAmPeer'', OpenedChannel ''0xc4a'', []),
        (''16Uiu2HAmBot'', RelayingPackage ''16Uiu2HAmPeer'', [''16Uiu2HAmPeer'']),
        (''16Uiu2HAmPeer'', BotResponse_verify, []),
        (''16Uiu2HAmPeer'', NodeStateResponse onlineNode, []),
        (''16Uiu2HAmPeer'', OpenedChannel ''0xc4a'', []),
        (''16Uiu2HAmBot'', RelayingPackage ''16Uiu2HAmPeer'', [''16Uiu2HAmPeer''])]"
    "started s4" "loadedDb s4" "relayTimestamp s4 = 0" "nextTimer s4 = 2"
    "verifiedHoprNodes s4 = [(''16Uiu2HAmPeer'', sample_node)]" "address s4 = ''16Uiu2HAmBot''"
proof -
  define s2 where "s2 = exec sample_deps [EvLoadData sample_ld, EvTickBegin sample_vc,
                                         EvTickBegin sample_vc] started_bot"
  note f = second_tick_begun [folded s2_def]
  define s3 where "s3 = step sample_deps (EvTickResume 0 sample_pr) s2"
  have p: "(''16Uiu2HAmPeer'' :: string) \<noteq> []" by simp
  note s3 = step_TickResume [OF f(1) f(5) sample_pr_facts(1,3) p sample_pr_facts(2), folded s3_def]
  have g: "suspended s3 = [sample_node]" "started s3"
    by (simp_all add: s3 f)
  note s4 = step_TickResume [OF g(1) g(2) sample_pr_facts(1,3) p sample_pr_facts(2)]
  have e: "s4 = step sample_deps (EvTickResume 0 sample_pr) s3"
    by (simp add: s4_def overlapping_ticks_def s3_def s2_def)
  show "suspended s4 = []"
    "relayTimeouts s4 = [''16Uiu2HAmPeer'' \<mapsto> 1]"
    "timers s4 = [0 \<mapsto> ''16Uiu2HAmPeer'', 1 \<mapsto> ''16Uiu2HAmPeer'']"
    "outbox s4 =
       [(''16Uiu2HAmPeer'', BotResponse_verify, []),
        (''16Uiu2HAmPeer'', NodeStateResponse onlineNode, []),
        (''16Uiu2HAmPeer'', OpenedChannel ''0xc4a'', []),
        (''16Uiu2HAmBot'', RelayingPackage ''16Uiu2HAmPeer'', [''16Uiu2HAmPeer'']),
        (''16Uiu2HAmPeer'', BotResponse_verify, []),
        (''16Uiu2HAmPeer'', NodeStateResponse onlineNode, []),
        (''16Uiu2HAmPeer'', OpenedChannel ''0xc4a'', []),
        (''16Uiu2HAmBot'', RelayingPackage ''16Uiu2HAmPeer'', [''16Uiu2HAmPeer''])]"
    "started s4" "loadedDb s4" "relayTimestamp s4 = 0" "nextTimer s4 = 2"
    "verifiedHoprNodes s4 = [(''16Uiu2HAmPeer'', sample_node)]" "address s4 = ''16Uiu2HAmBot''"
    unfolding e s4 by (simp_all add: s3 f)
qed

text \<open>
  Claim C1, on the code. The entry of \<open>relayTimeouts\<close> is written at the end of the
  probe startup (line 428), after the awaits of lines 381 and 413-415. In the run below
  the data is loaded and two ticks each reach \<open>await tweet.fetch\<close> before either is
  resumed: after the first one the probe map still has no entry for the peer, so the
  guard of line 373 lets the second tick select the same node, and both go on to send
  the four messages of a probe startup for the same address.
\<close>

theorem probe_entry_written_after_awaits:
  "suspended (exec sample_deps [EvLoadData sample_ld, EvTickBegin sample_vc] started_bot) =
     [sample_node] \<and>
   relayTimeouts (exec sample_deps [EvLoadData sample_ld, EvTickBegin sample_vc] started_bot)
     ''16Uiu2HAmPeer'' = None \<and>
   suspended (exec sample_deps [EvLoadData sample_ld, EvTickBegin sample_vc,
                                EvTickBegin sample_vc] started_bot) =
     [sample_node, sample_node] \<and>
   outbox (exec sample_deps overlapping_ticks started_bot) =
     [(''16Uiu2HAmPeer'', BotResponse_verify, []),
      (''16Uiu2HAmPeer'', NodeStateResponse onlineNode, []),
      (''16Uiu2HAmPeer'', OpenedChannel ''0xc4a'', []),
      (''16Uiu2HAmBot'', RelayingPackage ''16Uiu2HAmPeer'', [''16Uiu2HAmPeer'']),
      (''16Uiu2HAmPeer'', BotResponse_verify, []),
      (''16Uiu2HAmPeer'', NodeStateResponse onlineNode, []),
      (''16Uiu2HAmPeer'', OpenedChannel ''0xc4a'', []),
      (''16Uiu2HAmBot'', RelayingPackage ''16Uiu2HAmPeer'', [''16Uiu2HAmPeer''])]"
  by (simp add: first_tick_begun second_tick_begun both_ticks_resumed del: exec_Cons exec_Nil)

text \<open>
  Claim C2, on the code. After the same run two timeouts are live for one address, and
  \<open>relayTimeouts\<close> records only the second. When the first fires it deletes that
  entry although the second timeout is still live, and the next tick starts a third
  probe for the address.
\<close>

theorem two_pending_probes_for_one_address:
  "timers (exec sample_deps overlapping_ticks started_bot) 0 = Some ''16Uiu2HAmPeer'' \<and>
   timers (exec sample_deps overlapping_ticks started_bot) 1 = Some ''16Uiu2HAmPeer'' \<and>
   relayTimeouts (exec sample_deps overlapping_ticks started_bot) ''16Uiu2HAmPeer'' = Some 1 \<and>
   relayTimeouts (exec sample_deps (overlapping_ticks @ [EvTimeout 0]) started_bot)
     ''16Uiu2HAmPeer'' = None \<and>
   timers (exec sample_deps (overlapping_ticks @ [EvTimeout 0]) started_bot) 1 =
     Some ''16Uiu2HAmPeer'' \<and>
   suspended (exec sample_deps (overlapping_ticks @ [EvTimeout 0, EvTickBegin sample_vc])
                started_bot) = [sample_node]"
proof -
  define s4 where "s4 = exec sample_deps overlapping_ticks started_bot"
  note f = both_ticks_resumed [folded s4_def]
  define s5 where "s5 = step sample_deps (EvTimeout 0) s4"
  have t0: "timers s4 0 = Some ''16Uiu2HAmPeer''" by (simp add: f)
  have s5: "s5 = s4\<lparr>timers := (timers s4)(0 := None),
                     outbox := outbox s4 @ [(''16Uiu2HAmPeer'', NodeStateResponse relayingNodeFailed, [])],
                     relayTimeouts := (relayTimeouts s4)(''16Uiu2HAmPeer'' := None)\<rparr>"
    by (simp add: s5_def step_def relayTimeout_run [OF t0 f(5)])
  have c: "loadedDb s5" "relayTimestamp s5 \<le> vc_now sample_vc"
    "\<lfloor>vc_random sample_vc * of_nat (length (verifiedHoprNodes s5))\<rfloor> = int 0"
    "0 < length (verifiedHoprNodes s5)"
    "relayTimeouts s5 (node_id (snd (verifiedHoprNodes s5 ! 0))) = None"
    by (simp_all add: s5 f sample_vc_facts sample_pr_facts)
  have s6: "suspended (step sample_deps (EvTickBegin sample_vc) s5) = [sample_node]"
    by (simp add: step_TickBegin [OF c(1) sample_vc_facts(1) c(2-5)]) (simp add: s5 f)
  show ?thesis
    unfolding exec_append s4_def [symmetric]
    by (simp add: s5_def [symmetric] s6 t0 f) (simp add: s5 f)
qed

section \<open>Scores over a run\<close>

lemma score_le_refl [simp]: "score_le s s"
  by (simp add: score_le_def)

lemma score_le_trans: "score_le s s1 \<Longrightarrow> score_le s1 s2 \<Longrightarrow> score_le s s2"
  unfolding score_le_def by (meson order_trans)

lemma score_le_same: "scoreDb s' = scoreDb s \<Longrightarrow> score_le s s'"
  by (simp add: score_le_def score_of_def)

lemma score_le_update:
  "score_of s a \<le> v \<Longrightarrow> score_le s (s\<lparr>scoreDb := AList.update a v (scoreDb s)\<rparr>)"
  by (simp add: score_le_def score_of_update)

lemma score_le_fields:
  "score_le s (s\<lparr>suspended := x\<rparr>)" "score_le s (s\<lparr>restoring := y\<rparr>)"
  by (simp_all add: score_le_same)

lemma keepsD: "keeps_scores m \<Longrightarrow> score_le s (fst (m s))"
  by (simp add: keeps_scores_def)

lemma keeps_andThen:
  assumes "keeps_scores m" and "\<And>a. keeps_scores (k a)"
  shows "keeps_scores (andThen m k)"
  unfolding keeps_scores_def
proof
  fix s
  obtain s1 r where m: "m s = (s1, r)" by (cases "m s")
  have 1: "score_le s s1" using assms(1) m unfolding keeps_scores_def by (metis fst_conv)
  show "score_le s (fst (andThen m k s))"
  proof (cases r)
    case (Inl x)
    then show ?thesis using 1 m by (simp add: andThen_def)
  next
    case (Inr a)
    have "score_le s1 (fst (k a s1))" using assms(2) unfolding keeps_scores_def by blast
    then show ?thesis using 1 m Inr by (auto simp: andThen_def intro: score_le_trans)
  qed
qed

lemma keeps_return [simp]: "keeps_scores (return a)"
  by (simp add: keeps_scores_def return_def)

lemma keeps_send [simp]: "keeps_scores (sendMessageFromBot r p h)"
  by (simp add: keeps_scores_def sendMessageFromBot_def score_le_same)

lemma keeps_dumpData [simp]: "keeps_scores (dumpData e)"
  using dumped_frame(8) by (simp add: keeps_scores_def dumped_def score_le_same)

lemma keeps_verifyTweet [simp]: "keeps_scores (verifyTweet d e message)"
  by (simp add: keeps_scores_def verifyTweet_def Let_def score_le_same split: option.split)

lemma keeps_verifyBalance [simp]: "keeps_scores (verifyBalance d e message)"
  by (simp add: keeps_scores_def verifyBalance_def split: option.split)

lemma keeps_getEth [simp]: "keeps_scores (getEthereumAddressFromHOPRAddress r)"
  by (simp add: keeps_scores_def getEthereumAddressFromHOPRAddress_def split: option.split)

lemma keeps_openPaymentChannel [simp]: "keeps_scores (openPaymentChannel r)"
  by (simp add: keeps_scores_def openPaymentChannel_def split: option.split)

lemma keeps_reward:
  assumes "0 \<le> r" and "\<And>x. keeps_scores (k x)"
  shows "keeps_scores (andThen (getHoprAddressScore g a)
           (\<lambda>score. andThen (setHoprAddressScore w a (score + r)) k))"
  unfolding keeps_scores_def
proof
  fix s
  have u: "score_le s (s\<lparr>scoreDb := AList.update a (score_of s a + r) (scoreDb s)\<rparr>)"
    using assms(1) by (simp add: score_le_update)
  have "score_le (s\<lparr>scoreDb := AList.update a (score_of s a + r) (scoreDb s)\<rparr>)
          (fst (k () (s\<lparr>scoreDb := AList.update a (score_of s a + r) (scoreDb s)\<rparr>)))"
    using assms(2) unfolding keeps_scores_def by blast
  with u have "score_le s (fst (k () (s\<lparr>scoreDb := AList.update a (score_of s a + r) (scoreDb s)\<rparr>)))"
    by (rule score_le_trans)
  then show "score_le s (fst (andThen (getHoprAddressScore g a)
           (\<lambda>score. andThen (setHoprAddressScore w a (score + r)) k) s))"
    by (simp add: andThen_def getHoprAddressScore_def setHoprAddressScore_def)
qed

lemma keeps_bonus:
  assumes "0 \<le> v" and "\<And>x. keeps_scores (k x)"
  shows "keeps_scores (andThen (getHoprAddressScore g a)
           (\<lambda>score. andThen (if score = 0 then setHoprAddressScore w a v else return ()) k))"
  unfolding keeps_scores_def
proof
  fix s
  have k: "\<And>s'. score_le s' (fst (k () s'))"
    using assms(2) unfolding keeps_scores_def by blast
  show "score_le s (fst (andThen (getHoprAddressScore g a)
           (\<lambda>score. andThen (if score = 0 then setHoprAddressScore w a v else return ()) k) s))"
  proof (cases "score_of s a = 0")
    case True
    then have u: "score_le s (s\<lparr>scoreDb := AList.update a v (scoreDb s)\<rparr>)"
      using assms(1) by (simp add: score_le_update)
    show ?thesis
      using True score_le_trans [OF u k] k [of s]
      by (simp add: andThen_def getHoprAddressScore_def setHoprAddressScore_def)
  next
    case False
    then show ?thesis using k [of s]
      by (simp add: andThen_def getHoprAddressScore_def return_def)
  qed
qed

lemma keeps_roundTrip:
  assumes "0 \<le> ScoreRewards_relayed d"
  shows "keeps_scores (roundTrip d e message)"
  unfolding roundTrip_def Let_def
  apply (rule keeps_andThen, simp)
  apply (rule keeps_andThen)
   apply (simp add: keeps_scores_def clearTimeout_def score_le_same split: option.split)
  apply (rule keeps_reward [OF assms])
  apply simp
  done

lemma keeps_tweetSucceeded:
  assumes "0 \<le> ScoreRewards_verified d"
  shows "keeps_scores (tweetSucceeded d e message tweet)"
  unfolding tweetSucceeded_def
  apply (rule keeps_andThen, simp)
  apply (rule keeps_andThen, simp)
  apply (clarsimp split: prod.split)
  apply (rule keeps_andThen)
  subgoal for balance st
    apply (cases st; simp)
    apply (rule keeps_andThen, simp)
    apply (rule keeps_andThen)
     apply (simp add: keeps_scores_def score_le_same split: option.split)
    apply (rule keeps_bonus [OF assms])
    apply (rule keeps_andThen, simp)
    apply simp
    done
  apply simp
  done

lemma keeps_handleMessage:
  assumes "0 \<le> ScoreRewards_relayed d" and "0 \<le> ScoreRewards_verified d"
  shows "keeps_scores (handleMessage d e message)"
proof -
  have rest: "keeps_scores
     (andThen
          (if twitter_match (msg_text message) then
             andThen (sendMessageFromBot (msg_from message)
                        (NodeStateResponse tweetVerificationInProgress) [])
             (\<lambda>_. andThen (verifyTweet d e message)
             (\<lambda>(tweet, nodeState). return (Some tweet, nodeState)))
           else return (None, newUnverifiedNode))
          (\<lambda>(tweet, nodeState).
             andThen
               (case nodeState of
                  newUnverifiedNode \<Rightarrow>
                    sendMessageFromBot (msg_from message) (NodeStateResponse nodeState) []
                | tweetVerificationFailed \<Rightarrow>
                    (\<lambda>s. case tweets s (msg_from message) of
                           None \<Rightarrow> (s, Inl TypeError)
                         | Some t \<Rightarrow>
                             sendMessageFromBot (msg_from message)
                               (NodeStateResponse_status nodeState (status t)) [] s)
                | tweetVerificationSucceeded \<Rightarrow> tweetSucceeded d e message tweet
                | _ \<Rightarrow> return ())
               (\<lambda>_. sendMessageFromBot (msg_from message) (BotResponse_status nodeState) [])))"
    apply (rule keeps_andThen)
     apply (simp, intro impI keeps_andThen; (simp split: prod.split)?)
    apply (clarsimp split: prod.split)
    apply (rule keeps_andThen)
    subgoal for tweet st
      apply (cases st; simp add: keeps_tweetSucceeded [OF assms(2)])
      apply (simp add: keeps_scores_def sendMessageFromBot_def score_le_same split: option.split)
      done
    apply simp
    done
  show ?thesis
    unfolding keeps_scores_def
  proof
    fix s
    show "score_le s (fst (handleMessage d e message s))"
      using keeps_roundTrip [OF assms(1), of e message] rest
        keeps_send [of "msg_from message" "NodeStateResponse relayingNodeInProgress" "[]"]
      unfolding keeps_scores_def handleMessage_def by simp
  qed
qed

lemma map_of_restored:
  "map_of (map (\<lambda>p. (fst p, v)) xs) a = Some w \<Longrightarrow> w = v"
  by (induction xs) (auto split: if_splits)

lemma keeps_loadData_begin [simp]: "keeps_scores (loadData_begin d e)"
  unfolding loadData_begin_def
  by (rule keeps_andThen)
     (simp_all add: keeps_scores_def score_le_same split: option.split)

lemma keeps_loadData_end [simp]: "keeps_scores loadData_end"
  by (simp add: keeps_scores_def loadData_end_def score_le_same)

lemma restore_on_empty:
  assumes "0 \<le> ScoreRewards_verified d" and "scoreDb s = []"
  shows "score_le s (fst (loadData_restore d e s))"
proof -
  have z: "score_of s p = 0" for p using assms(2) by (simp add: score_of_def)
  have nn: "0 \<le> score_of (s\<lparr>scoreDb := map (\<lambda>p. (fst p, ScoreRewards_verified d)) xs\<rparr>) p" for xs p
    using assms(1) map_of_restored [of "ScoreRewards_verified d" xs p]
    by (auto simp: score_of_def split: option.split)
  show ?thesis
    by (simp add: loadData_restore_def score_le_def z nn Let_def split: option.split)
qed

lemma keeps_loadData:
  assumes "0 \<le> ScoreRewards_verified d"
  shows "keeps_scores (loadData d e)"
  unfolding keeps_scores_def
proof
  fix s
  obtain s1 r where b: "loadData_begin d e s = (s1, r)" by (cases "loadData_begin d e s")
  have 1: "score_le s s1"
    using keeps_loadData_begin [of d e] b unfolding keeps_scores_def by (metis fst_conv)
  have e: "scoreDb s1 = []" if "r = Inr True"
    using b that
    by (auto simp: loadData_begin_def andThen_def split: if_splits option.splits)
  show "score_le s (fst (loadData d e s))"
  proof (cases r)
    case (Inl x)
    then show ?thesis using 1 b by (simp add: loadData_def andThen_def)
  next
    case (Inr waiting)
    show ?thesis
    proof (cases waiting)
      case True
      then have 2: "score_le s1 (fst (loadData_restore d e s1))"
        using restore_on_empty [OF assms e] Inr by simp
      obtain s2 r2 where r: "loadData_restore d e s1 = (s2, r2)"
        by (cases "loadData_restore d e s1")
      have "score_le s s2" using 1 2 r by (auto intro: score_le_trans)
      then show ?thesis
        using b Inr True r
        by (cases r2) (simp_all add: loadData_def andThen_def loadData_end_def score_le_def score_of_def)
    next
      case False
      then show ?thesis
        using b Inr 1
        by (simp add: loadData_def andThen_def return_def loadData_end_def score_le_def score_of_def)
    qed
  qed
qed

lemma keeps_begin:
  assumes "0 \<le> ScoreRewards_verified d"
  shows "keeps_scores (verificationCycle_begin d e)"
  unfolding verificationCycle_begin_def
  apply (rule keeps_andThen)
  subgoal
    using keeps_loadData [OF assms, of "vc_load e"]
    by (simp add: keeps_scores_def)
  apply (rule keeps_andThen, simp)
  apply (simp add: keeps_scores_def Let_def split: option.split)
  done

lemma keeps_startProbe [simp]: "keeps_scores (startProbe d e n)"
proof -
  have "keeps_scores
     (andThen (sendMessageFromBot a BotResponse_verify [])
        (\<lambda>_. andThen (sendMessageFromBot a (NodeStateResponse onlineNode) [])
        (\<lambda>_. andThen (openPaymentChannel (pr_channel e))
        (\<lambda>channelId. andThen (sendMessageFromBot a (OpenedChannel channelId) [])
        (\<lambda>_. andThen
           (\<lambda>s. sendMessageFromBot (address s) (RelayingPackage a) [a] s)
        (\<lambda>_ s. let (t, s1) = setTimeout a s
               in (s1\<lparr>relayTimeouts := (relayTimeouts s1)(a \<mapsto> t)\<rparr>, Inr ())))))))" for a
    apply (intro keeps_andThen keeps_send keeps_openPaymentChannel)
     apply (simp_all add: keeps_scores_def sendMessageFromBot_def setTimeout_def score_le_same)
    done
  then show ?thesis
    unfolding keeps_scores_def startProbe_def
    by (simp add: Let_def split: option.split)
qed

lemma keeps_relayTimeout [simp]: "keeps_scores (relayTimeout t)"
proof -
  have a: "keeps_scores (andThen (sendMessageFromBot a (NodeStateResponse relayingNodeFailed) [])
          (\<lambda>_ s. (s\<lparr>relayTimeouts := (relayTimeouts s)(a := None)\<rparr>, Inr ())))" for a
    by (rule keeps_andThen, rule keeps_send) (simp add: keeps_scores_def score_le_same)
  show ?thesis
    unfolding keeps_scores_def relayTimeout_def
  proof
    fix s
    show "score_le s (fst (case timers s t of None \<Rightarrow> (s, Inr ())
         | Some hoprNodeAddress \<Rightarrow>
             andThen (sendMessageFromBot hoprNodeAddress (NodeStateResponse relayingNodeFailed) [])
              (\<lambda>_ s. (s\<lparr>relayTimeouts := (relayTimeouts s)(hoprNodeAddress := None)\<rparr>, Inr ()))
              (s\<lparr>timers := (timers s)(t := None)\<rparr>)))"
    proof (cases "timers s t")
      case None
      then show ?thesis by simp
    next
      case (Some a')
      have "score_le s (s\<lparr>timers := (timers s)(t := None)\<rparr>)" by (simp add: score_le_same)
      then show ?thesis
        using a [of a'] Some unfolding keeps_scores_def
        by (auto intro: score_le_trans)
    qed
  qed
qed

lemma keeps_verificationCycle:
  assumes "0 \<le> ScoreRewards_verified d"
  shows "keeps_scores (verificationCycle d e p)"
  unfolding verificationCycle_def
  apply (rule keeps_andThen, rule keeps_begin [OF assms])
  apply (simp add: keeps_scores_def verificationCycle_probe_def keepsD [OF keeps_startProbe]
      split: option.split)
  done

lemma step_keeps_scores:
  assumes "0 \<le> ScoreRewards_relayed d" and "0 \<le> ScoreRewards_verified d"
    and "\<not> restore_resumed ev"
  shows "score_le s (step d ev s)"
proof (cases ev)
  case (EvLoadData e)
  then show ?thesis by (simp add: step_def keepsD [OF keeps_loadData [OF assms(2)]])
next
  case (EvLoadBegin e)
  obtain s1 r where b: "loadData_begin d e s = (s1, r)" by (cases "loadData_begin d e s")
  have 1: "score_le s s1" using keepsD [OF keeps_loadData_begin, of s d e] b by simp
  have 2: "score_le s1 (s1\<lparr>restoring := restoring s1 + 1\<rparr>)"
    "score_le s1 (fst (loadData_end s1))"
    by (simp_all add: score_le_same loadData_end_def)
  show ?thesis
    using EvLoadBegin b 1 2
    by (auto simp: step_def split: sum.split bool.split intro: score_le_trans)
next
  case (EvLoadResume e)
  then show ?thesis using assms(3) by simp
next
  case (EvMessage e message)
  then show ?thesis by (simp add: step_def keepsD [OF keeps_handleMessage [OF assms(1,2)]])
next
  case (EvTick e p)
  then show ?thesis by (simp add: step_def keepsD [OF keeps_verificationCycle [OF assms(2)]])
next
  case (EvTickBegin e)
  obtain s1 r where b: "verificationCycle_begin d e s = (s1, r)"
    by (cases "verificationCycle_begin d e s")
  have 1: "score_le s s1" using keepsD [OF keeps_begin [OF assms(2)], of s e] b by simp
  have 2: "score_le s1 (s1\<lparr>suspended := x\<rparr>)" for x by (simp add: score_le_same)
  show ?thesis
    using EvTickBegin b 1 2
    by (auto simp: step_def split: sum.split option.split intro: score_le_trans)
next
  case (EvTickResume i p)
  have "score_le s (verificationCycle_probe d p n (s\<lparr>suspended := x\<rparr>))" for n x
    using keepsD [OF keeps_startProbe, of "s\<lparr>suspended := x\<rparr>" d p n]
    by (auto simp: verificationCycle_probe_def intro: score_le_trans [OF score_le_fields(1)])
  then show ?thesis using EvTickResume by (simp add: step_def)
next
  case (EvTimeout t)
  then show ?thesis by (simp add: step_def keepsD [OF keeps_relayTimeout])
qed

lemma exec_keeps_scores:
  assumes "0 \<le> ScoreRewards_relayed d" and "0 \<le> ScoreRewards_verified d"
  shows "list_all (\<lambda>ev. \<not> restore_resumed ev) evs \<Longrightarrow> score_le s (exec d evs s)"
proof (induction evs arbitrary: s)
  case Nil
  then show ?case by simp
next
  case (Cons ev evs)
  then have "score_le s (step d ev s)" "score_le (step d ev s) (exec d evs (step d ev s))"
    using step_keeps_scores [OF assms] by simp_all
  then show ?case by (auto intro: score_le_trans)
qed

text \<open>
  What the restore of the next section does not take away: with message handlers, timeout
  callbacks and the halves of a tick each run as one event, every event other than the
  resumption of a suspended restore leaves every score at least as high as it found it,
  provided the two rewards are not negative.
\<close>

theorem score_non_decreasing_without_suspended_restore:
  assumes "0 \<le> ScoreRewards_relayed d" and "0 \<le> ScoreRewards_verified d"
    and "list_all (\<lambda>ev. \<not> restore_resumed ev) later"
  shows "score_of (exec d earlier s) p \<le> score_of (exec d (earlier @ later) s) p"
  using exec_keeps_scores [OF assms, of "exec d earlier s"]
  by (simp add: exec_append score_le_def)

theorem score_non_decreasing_witness:
  "score_of (exec sample_deps [EvMessage sample_hm attestation_message] fresh_bot) ''16Uiu2HAmPeer''
     \<le> score_of (exec sample_deps ([EvMessage sample_hm attestation_message] @
                                    [EvLoadBegin sample_ld, EvMessage sample_hm relayed_message,
                                     EvTick sample_vc sample_pr, EvTimeout 0]) fresh_bot)
          ''16Uiu2HAmPeer''"
  using score_non_decreasing_without_suspended_restore
    [of sample_deps "[EvLoadBegin sample_ld, EvMessage sample_hm relayed_message,
                      EvTick sample_vc sample_pr, EvTimeout 0]"
        "[EvMessage sample_hm attestation_message]" fresh_bot "''16Uiu2HAmPeer''"]
  by (simp add: sample_deps_facts sample_relayed_facts del: exec_Cons exec_Nil)

section \<open>A restore that overlaps a reward\<close>

lemma restore_race:
  fixes s1 s2 s3
  defines "s1 \<equiv> step restoring_deps (EvLoadBegin restore_ld) new_bot"
    and "s2 \<equiv> step restoring_deps (EvMessage sample_hm relayed_message)
                 (step restoring_deps (EvLoadBegin restore_ld) new_bot)"
    and "s3 \<equiv> step restoring_deps (EvLoadResume restore_ld)
                 (step restoring_deps (EvMessage sample_hm relayed_message)
                    (step restoring_deps (EvLoadBegin restore_ld) new_bot))"
  shows "scoreDb s1 = []" "scoreDb s2 = [(''16Uiu2HAmPeer'', 10)]"
    "scoreDb s3 = [(''16Uiu2HAmOther'', 100)]"
proof -
  have s1: "started s1" "address s1 = ''16Uiu2HAmBot''" "scoreDb s1 = []" "0 < restoring s1"
    by (simp_all add: s1_def step_def loadData_begin_def andThen_def restoring_deps_def
        restore_ld_def sample_ld_def new_bot_def newCoverbot_def truthy_def)
  show "scoreDb s1 = []" by (rule s1(3))
  have a: "msg_from relayed_message = address s1"
    by (simp add: relayed_message_def s1)
  have t: "getHOPRNodeAddressFromContent restoring_deps (msg_text relayed_message) = ''16Uiu2HAmPeer''"
    "ScoreRewards_relayed restoring_deps = 10" "ScoreRewards_verified restoring_deps = 100"
    by (simp_all add: restoring_deps_def sample_deps_def relayed_message_def)
  have e: "s2 = fst (roundTrip restoring_deps sample_hm relayed_message s1)"
    unfolding s2_def s1_def [symmetric] by (simp add: step_def handleMessage_own [OF a])
  have s2: "scoreDb s2 = [(''16Uiu2HAmPeer'', 10)]" "0 < restoring s2"
    unfolding e roundTrip_run [OF s1(1) sample_relayed_facts(4,5)]
    by (simp_all add: t s1 score_of_def)
  show "scoreDb s2 = [(''16Uiu2HAmPeer'', 10)]" by (rule s2(1))
  have "s3 = step restoring_deps (EvLoadResume restore_ld) s2"
    unfolding s3_def s2_def by (rule refl)
  then show "scoreDb s3 = [(''16Uiu2HAmOther'', 100)]"
    using s2(2)
    by (simp add: step_def loadData_restore_def loadData_end_def andThen_def restore_ld_def
        sample_ld_def t)
qed

text \<open>
  Claim C9, on the code. The constructor starts \<open>loadData\<close> without awaiting it
  (line 203). The restore finds the score record empty and is suspended at line 269; a
  round-trip confirmation for the peer is handled and raises the peer's score to 10; the
  restore resumes and overwrites the score record with the ids of the earlier
  environment (line 281), which do not include the peer: its score is back at 0.
\<close>

theorem restore_overwrites_reward:
  "score_of new_bot ''16Uiu2HAmPeer'' = 0 \<and>
   score_of (exec restoring_deps [EvLoadBegin restore_ld, EvMessage sample_hm relayed_message]
               new_bot) ''16Uiu2HAmPeer'' = 10 \<and>
   score_of (exec restoring_deps [EvLoadBegin restore_ld, EvMessage sample_hm relayed_message,
                                  EvLoadResume restore_ld] new_bot) ''16Uiu2HAmPeer'' = 0"
  by (simp add: restore_race score_of_def) (simp add: new_bot_def newCoverbot_def)

end
